theory Spec2Isabelle
  imports Complex_Main "HOL-Library.AList"
begin

section \<open>Strings\<close>

text \<open>
  A Python \<open>str\<close> is a sequence of Unicode code points; a code point is modelled as a
  natural number and a string as the list of its code points. \<open>py\<close> turns a string
  literal of the logic, whose characters are bytes, into the Python string with the same
  characters.
\<close>

type_synonym codepoint = nat
type_synonym str = "codepoint list"

definition py :: "string \<Rightarrow> str" where
  "py cs = map of_char cs"

definition at_sign :: codepoint where
  "at_sign = 0x40"

definition full_stop :: codepoint where
  "full_stop = 0x2E"

definition plus_sign :: codepoint where
  "plus_sign = 0x2B"

definition digit_one :: codepoint where
  "digit_one = 0x31"

text \<open>
  In a pattern for \<open>str\<close> subjects that is compiled without the ASCII flag, \<open>\d\<close> matches
  every Unicode decimal digit, that is every character of the general category Nd, not
  only \<open>0\<close> to \<open>9\<close>. These are the ranges of the category in Unicode 14.0.0, as
  CPython 3.11 has them; the first is \<open>0\<close> to \<open>9\<close>, the second the Arabic-Indic digits.
  The properties below use the table only through these two ranges.
\<close>

definition decimal_digit_ranges :: "(codepoint \<times> codepoint) list" where
  "decimal_digit_ranges =
    [(0x30, 0x39), (0x660, 0x669), (0x6F0, 0x6F9), (0x7C0, 0x7C9), (0x966, 0x96F),
     (0x9E6, 0x9EF), (0xA66, 0xA6F), (0xAE6, 0xAEF), (0xB66, 0xB6F), (0xBE6, 0xBEF),
     (0xC66, 0xC6F), (0xCE6, 0xCEF), (0xD66, 0xD6F), (0xDE6, 0xDEF), (0xE50, 0xE59),
     (0xED0, 0xED9), (0xF20, 0xF29), (0x1040, 0x1049), (0x1090, 0x1099), (0x17E0, 0x17E9),
     (0x1810, 0x1819), (0x1946, 0x194F), (0x19D0, 0x19D9), (0x1A80, 0x1A89),
     (0x1A90, 0x1A99), (0x1B50, 0x1B59), (0x1BB0, 0x1BB9), (0x1C40, 0x1C49),
     (0x1C50, 0x1C59), (0xA620, 0xA629), (0xA8D0, 0xA8D9), (0xA900, 0xA909),
     (0xA9D0, 0xA9D9), (0xA9F0, 0xA9F9), (0xAA50, 0xAA59), (0xABF0, 0xABF9),
     (0xFF10, 0xFF19), (0x104A0, 0x104A9), (0x10D30, 0x10D39), (0x11066, 0x1106F),
     (0x110F0, 0x110F9), (0x11136, 0x1113F), (0x111D0, 0x111D9), (0x112F0, 0x112F9),
     (0x11450, 0x11459), (0x114D0, 0x114D9), (0x11650, 0x11659), (0x116C0, 0x116C9),
     (0x11730, 0x11739), (0x118E0, 0x118E9), (0x11950, 0x11959), (0x11C50, 0x11C59),
     (0x11D50, 0x11D59), (0x11DA0, 0x11DA9), (0x16A60, 0x16A69), (0x16AC0, 0x16AC9),
     (0x16B50, 0x16B59), (0x1D7CE, 0x1D7FF), (0x1E140, 0x1E149), (0x1E2F0, 0x1E2F9),
     (0x1E950, 0x1E959), (0x1FBF0, 0x1FBF9)]"

definition unicode_decimal :: "codepoint \<Rightarrow> bool" where
  "unicode_decimal c = list_ex (\<lambda>(lo, hi). lo \<le> c \<and> c \<le> hi) decimal_digit_ranges"

section \<open>Entity model (SCMS\_api.py, lines 8-47)\<close>

text \<open>
  A naive Python \<open>datetime\<close> is a point on a timeline with microsecond resolution; it is
  modelled as the integer number of microseconds since a fixed origin. The difference of two
  datetimes is a \<open>timedelta\<close>, again a number of microseconds, and its attribute \<open>.days\<close> is
  the floor of that number divided by the microseconds of one day (negative differences
  round towards minus infinity, as \<open>timedelta\<close> normalises them).

  Amounts are Python floats that the engine only compares (\<open><=\<close>, \<open>>\<close>); they are modelled
  as the real numbers the finite floats denote, on which these comparisons are exact.
\<close>

type_synonym datetime = int
type_synonym timedelta = int

definition one_day :: timedelta where
  "one_day = 86400000000"

definition days :: "timedelta \<Rightarrow> int" where
  "days td = td div one_day"

datatype ClaimStatus = SUBMITTED | UNDER_REVIEW | APPROVED | REJECTED | CLOSED

record Policyholder =
  ph_id :: str
  name :: str
  contact_number :: str
  email :: str
  date_of_birth :: datetime

record Policy =
  pol_id :: str
  policyholder_id :: str
  pol_type :: str
  start_date :: datetime
  end_date :: datetime
  coverage_amount :: real
  premium :: real

record Claim =
  clm_id :: str
  policy_id :: str
  date_of_incident :: datetime
  description :: str
  amount :: real
  status :: ClaimStatus
  date_submitted :: datetime

text \<open>
  The two exception classes, each carrying its message. The messages of the source are
  kept apart by a constructor each; an interpolated id or amount is the constructor's
  argument. \<open>KeyError\<close> is Python's own, raised by a subscript on a missing key.
\<close>

datatype message =
    PolicyholderExists str
  | PolicyholderMissing str
  | PolicyExists str
  | PolicyMissing str
  | ClaimExists str
  | ClaimMissing str
  | StartNotBeforeEnd
  | CoverageNotPositive
  | PremiumNotPositive
  | UnderageAtStart
  | IncidentOutsidePeriod
  | AmountOutOfRange real
  | SubmittedBeforeIncident
  | LateSubmission
  | InvalidEmail
  | InvalidPhone
  | BirthInFuture
  | Underage
  | ClosedClaim

datatype error =
    ValidationError message
  | BusinessRuleViolation message
  | KeyError str

text \<open>
  A method of the engine returns \<open>None\<close> or raises. Its outcome is \<open>None\<close> for a normal
  return and \<open>Some e\<close> for the exception raised; the store it leaves behind is returned
  beside the outcome in both cases, because an exception does not undo assignments made
  before it was raised.
\<close>

type_synonym outcome = "error option"

section \<open>Regular expressions (the patterns given to re.match)\<close>

datatype cclass = Lit codepoint | Except codepoint | Digit

fun in_class :: "cclass \<Rightarrow> codepoint \<Rightarrow> bool" where
  "in_class (Lit a) c = (c = a)"
| "in_class (Except a) c = (c \<noteq> a)"
| "in_class Digit c = unicode_decimal c"

datatype regex =
    Nothing
  | Empty
  | Class cclass
  | Alt regex regex
  | Cat regex regex
  | Star regex

text \<open>The postfix operators of the patterns: \<open>r?\<close>, \<open>r+\<close>, \<open>r{n}\<close>, \<open>r{0,n}\<close>, \<open>r{m,n}\<close>.\<close>

definition opt :: "regex \<Rightarrow> regex" where
  "opt r = Alt r Empty"

definition plus1 :: "regex \<Rightarrow> regex" where
  "plus1 r = Cat r (Star r)"

fun times :: "nat \<Rightarrow> regex \<Rightarrow> regex" where
  "times 0 r = Empty"
| "times (Suc n) r = Cat r (times n r)"

fun at_most :: "nat \<Rightarrow> regex \<Rightarrow> regex" where
  "at_most 0 r = Empty"
| "at_most (Suc n) r = opt (Cat r (at_most n r))"

definition between :: "nat \<Rightarrow> nat \<Rightarrow> regex \<Rightarrow> regex" where
  "between m n r = Cat (times m r) (at_most (n - m) r)"

text \<open>The words a pattern denotes.\<close>

definition conc :: "str set \<Rightarrow> str set \<Rightarrow> str set" where
  "conc A B = {u @ v | u v. u \<in> A \<and> v \<in> B}"

inductive_set star :: "str set \<Rightarrow> str set" for A :: "str set" where
  star_nil: "[] \<in> star A"
| star_app: "u \<in> A \<Longrightarrow> v \<in> star A \<Longrightarrow> u @ v \<in> star A"

fun lang :: "regex \<Rightarrow> str set" where
  "lang Nothing = {}"
| "lang Empty = {[]}"
| "lang (Class k) = {[c] | c. in_class k c}"
| "lang (Alt r s) = lang r \<union> lang s"
| "lang (Cat r s) = conc (lang r) (lang s)"
| "lang (Star r) = star (lang r)"

text \<open>
  Matching by derivatives. The engine behind \<open>re.match\<close> searches every way of matching
  the pattern from position 0 (it backtracks until one succeeds), so for these patterns,
  which have no back-references or look-around, it succeeds exactly when some prefix of
  the subject is a word of the pattern.
\<close>

fun nullable :: "regex \<Rightarrow> bool" where
  "nullable Nothing = False"
| "nullable Empty = True"
| "nullable (Class k) = False"
| "nullable (Alt r s) = (nullable r \<or> nullable s)"
| "nullable (Cat r s) = (nullable r \<and> nullable s)"
| "nullable (Star r) = True"

fun deriv :: "codepoint \<Rightarrow> regex \<Rightarrow> regex" where
  "deriv c Nothing = Nothing"
| "deriv c Empty = Nothing"
| "deriv c (Class k) = (if in_class k c then Empty else Nothing)"
| "deriv c (Alt r s) = Alt (deriv c r) (deriv c s)"
| "deriv c (Cat r s) =
     (if nullable r then Alt (Cat (deriv c r) s) (deriv c s) else Cat (deriv c r) s)"
| "deriv c (Star r) = Cat (deriv c r) (Star r)"

fun accepts :: "regex \<Rightarrow> str \<Rightarrow> bool" where
  "accepts r [] = nullable r"
| "accepts r (c # cs) = accepts (deriv c r) cs"

text \<open>\<open>re.match(r, s)\<close> for a pattern without an end anchor: a prefix of \<open>s\<close> matches.\<close>

fun re_match :: "regex \<Rightarrow> str \<Rightarrow> bool" where
  "re_match r [] = nullable r"
| "re_match r (c # cs) = (nullable r \<or> re_match (deriv c r) cs)"

text \<open>
  \<open>re.match("^" + r + "$", s)\<close>: without the MULTILINE flag \<open>^\<close> holds only at position 0,
  where \<open>re.match\<close> starts anyway, and \<open>$\<close> holds at the end of the subject and also just
  before a line feed that is its last character. So the match succeeds when \<open>r\<close> matches
  the whole subject, or the whole subject without its final line feed.
\<close>

definition line_feed :: codepoint where
  "line_feed = 0x0A"

definition re_match_dollar :: "regex \<Rightarrow> str \<Rightarrow> bool" where
  "re_match_dollar r s =
     (accepts r s \<or> (s \<noteq> [] \<and> last s = line_feed \<and> accepts r (butlast s)))"

section \<open>Validators (SCMS\_api.py, lines 189-201)\<close>

text \<open>\<open>[^@]+@[^@]+\.[^@]+\<close>\<close>

definition email_pattern :: regex where
  "email_pattern =
     Cat (plus1 (Class (Except at_sign)))
    (Cat (Class (Lit at_sign))
    (Cat (plus1 (Class (Except at_sign)))
    (Cat (Class (Lit full_stop))
         (plus1 (Class (Except at_sign))))))"

text \<open>\<open>\+?1?\d{9,15}\<close>, the pattern between \<open>^\<close> and \<open>$\<close>\<close>

definition phone_pattern :: regex where
  "phone_pattern =
     Cat (opt (Class (Lit plus_sign)))
    (Cat (opt (Class (Lit digit_one)))
         (between 9 15 (Class Digit)))"

definition validate_email :: "str \<Rightarrow> outcome" where
  "validate_email e =
     (if \<not> re_match email_pattern e then Some (ValidationError InvalidEmail) else None)"

definition validate_phone_number :: "str \<Rightarrow> outcome" where
  "validate_phone_number p =
     (if \<not> re_match_dollar phone_pattern p then Some (ValidationError InvalidPhone)
      else None)"

text \<open>
  \<open>_validate_date_of_birth\<close> reads the clock twice (\<open>datetime.now()\<close> in each condition);
  the two readings are the parameters \<open>now1\<close> and \<open>now2\<close>.
\<close>

definition validate_date_of_birth :: "datetime \<Rightarrow> datetime \<Rightarrow> datetime \<Rightarrow> outcome" where
  "validate_date_of_birth now1 now2 dob =
     (if dob > now1 then Some (ValidationError BirthInFuture)
      else if days (now2 - dob) < 18 * 365 then Some (BusinessRuleViolation Underage)
      else None)"

definition validate_policyholder :: "datetime \<Rightarrow> datetime \<Rightarrow> Policyholder \<Rightarrow> outcome" where
  "validate_policyholder now1 now2 ph =
     (case validate_email (email ph) of
        Some e \<Rightarrow> Some e
      | None \<Rightarrow>
          (case validate_phone_number (contact_number ph) of
             Some e \<Rightarrow> Some e
           | None \<Rightarrow> validate_date_of_birth now1 now2 (date_of_birth ph)))"

section \<open>The store (ClaimsManagementSystem, SCMS\_api.py lines 49-201)\<close>

text \<open>
  A Python \<open>dict\<close> keeps its items in insertion order and has each key once: it is an
  association list with distinct keys. \<open>k in d\<close> is \<open>has_key\<close>, \<open>d.get(k)\<close> is
  \<open>map_of\<close>, \<open>d[k] = v\<close> is \<open>AList.update\<close> (in place for a key that is present, at the
  end for a new one), \<open>del d[k]\<close> is \<open>AList.delete\<close>.

  The dataclass instances are mutable objects that the dicts refer to: an assignment
  \<open>policy.type = type\<close> to an object read from \<open>self.policies\<close> changes the stored record.
  In the model such an assignment writes the changed record back under its key.
\<close>

record cms =
  policyholders :: "(str \<times> Policyholder) list"
  policies :: "(str \<times> Policy) list"
  claims :: "(str \<times> Claim) list"

definition empty_cms :: cms where
  "empty_cms = \<lparr>policyholders = [], policies = [], claims = []\<rparr>"

definition has_key :: "str \<Rightarrow> (str \<times> 'v) list \<Rightarrow> bool" where
  "has_key k d = (k \<in> set (map fst d))"

definition wf_cms :: "cms \<Rightarrow> bool" where
  "wf_cms s = (distinct (map fst (policyholders s)) \<and> distinct (map fst (policies s))
               \<and> distinct (map fst (claims s)))"

text \<open>
  \<open>if name:\<close> on an \<open>Optional[str]\<close> holds when the argument is neither \<open>None\<close> nor the
  empty string. Datetimes and members of the enumeration are always true, so for them
  \<open>if start_date:\<close> and \<open>if status:\<close> only test for \<open>None\<close>, as \<open>is not None\<close> does.
\<close>

fun truthy :: "str option \<Rightarrow> str option" where
  "truthy None = None"
| "truthy (Some v) = (if v = [] then None else Some v)"

definition get_policyholder :: "cms \<Rightarrow> str \<Rightarrow> Policyholder option" where
  "get_policyholder s k = map_of (policyholders s) k"

definition get_policy :: "cms \<Rightarrow> str \<Rightarrow> Policy option" where
  "get_policy s k = map_of (policies s) k"

definition get_claim :: "cms \<Rightarrow> str \<Rightarrow> Claim option" where
  "get_claim s k = map_of (claims s) k"

subsection \<open>Validation of policies and claims (lines 163-187)\<close>

definition validate_policy :: "cms \<Rightarrow> Policy \<Rightarrow> outcome" where
  "validate_policy s p =
     (case map_of (policyholders s) (policyholder_id p) of
        None \<Rightarrow> Some (ValidationError (PolicyholderMissing (policyholder_id p)))
      | Some ph \<Rightarrow>
          if start_date p \<ge> end_date p then Some (ValidationError StartNotBeforeEnd)
          else if coverage_amount p \<le> 0 then Some (ValidationError CoverageNotPositive)
          else if premium p \<le> 0 then Some (ValidationError PremiumNotPositive)
          else if days (start_date p - date_of_birth ph) < 18 * 365
            then Some (BusinessRuleViolation UnderageAtStart)
          else None)"

definition validate_claim :: "cms \<Rightarrow> Claim \<Rightarrow> outcome" where
  "validate_claim s c =
     (case map_of (policies s) (policy_id c) of
        None \<Rightarrow> Some (ValidationError (PolicyMissing (policy_id c)))
      | Some p \<Rightarrow>
          if date_of_incident c < start_date p \<or> date_of_incident c > end_date p
            then Some (ValidationError IncidentOutsidePeriod)
          else if amount c \<le> 0 \<or> amount c > coverage_amount p
            then Some (ValidationError (AmountOutOfRange (coverage_amount p)))
          else if date_submitted c < date_of_incident c
            then Some (ValidationError SubmittedBeforeIncident)
          else if days (date_submitted c - date_of_incident c) > 30
            then Some (BusinessRuleViolation LateSubmission)
          else None)"

subsection \<open>Policyholder operations (lines 56-90)\<close>

definition create_policyholder ::
  "datetime \<Rightarrow> datetime \<Rightarrow> cms \<Rightarrow> Policyholder \<Rightarrow> outcome \<times> cms" where
  "create_policyholder now1 now2 s ph =
     (case validate_policyholder now1 now2 ph of
        Some e \<Rightarrow> (Some e, s)
      | None \<Rightarrow>
          if has_key (ph_id ph) (policyholders s)
            then (Some (ValidationError (PolicyholderExists (ph_id ph))), s)
          else (None, s\<lparr>policyholders := AList.update (ph_id ph) ph (policyholders s)\<rparr>))"

text \<open>
  \<open>update_policyholder\<close> assigns field by field; each field that has a validator is
  validated just before its assignment, and an exception leaves the earlier assignments
  in the stored object.
\<close>

definition set_policyholder :: "cms \<Rightarrow> str \<Rightarrow> Policyholder \<Rightarrow> cms" where
  "set_policyholder s k ph = s\<lparr>policyholders := AList.update k ph (policyholders s)\<rparr>"

definition update_date_of_birth ::
  "datetime \<Rightarrow> datetime \<Rightarrow> cms \<Rightarrow> str \<Rightarrow> Policyholder \<Rightarrow> datetime option \<Rightarrow> outcome \<times> cms" where
  "update_date_of_birth now1 now2 s k ph dob =
     (case dob of
        None \<Rightarrow> (None, set_policyholder s k ph)
      | Some d \<Rightarrow>
          (case validate_date_of_birth now1 now2 d of
             Some e \<Rightarrow> (Some e, set_policyholder s k ph)
           | None \<Rightarrow> (None, set_policyholder s k (ph\<lparr>date_of_birth := d\<rparr>))))"

definition update_email ::
  "datetime \<Rightarrow> datetime \<Rightarrow> cms \<Rightarrow> str \<Rightarrow> Policyholder \<Rightarrow> str option \<Rightarrow> datetime option
    \<Rightarrow> outcome \<times> cms" where
  "update_email now1 now2 s k ph em dob =
     (case truthy em of
        None \<Rightarrow> update_date_of_birth now1 now2 s k ph dob
      | Some v \<Rightarrow>
          (case validate_email v of
             Some e \<Rightarrow> (Some e, set_policyholder s k ph)
           | None \<Rightarrow> update_date_of_birth now1 now2 s k (ph\<lparr>email := v\<rparr>) dob))"

definition update_contact_number ::
  "datetime \<Rightarrow> datetime \<Rightarrow> cms \<Rightarrow> str \<Rightarrow> Policyholder \<Rightarrow> str option \<Rightarrow> str option
    \<Rightarrow> datetime option \<Rightarrow> outcome \<times> cms" where
  "update_contact_number now1 now2 s k ph cn em dob =
     (case truthy cn of
        None \<Rightarrow> update_email now1 now2 s k ph em dob
      | Some v \<Rightarrow>
          (case validate_phone_number v of
             Some e \<Rightarrow> (Some e, set_policyholder s k ph)
           | None \<Rightarrow> update_email now1 now2 s k (ph\<lparr>contact_number := v\<rparr>) em dob))"

definition update_policyholder ::
  "datetime \<Rightarrow> datetime \<Rightarrow> cms \<Rightarrow> str \<Rightarrow> str option \<Rightarrow> str option \<Rightarrow> str option
    \<Rightarrow> datetime option \<Rightarrow> outcome \<times> cms" where
  "update_policyholder now1 now2 s k nm cn em dob =
     (case map_of (policyholders s) k of
        None \<Rightarrow> (Some (ValidationError (PolicyholderMissing k)), s)
      | Some ph \<Rightarrow>
          update_contact_number now1 now2 s k
            (case truthy nm of None \<Rightarrow> ph | Some v \<Rightarrow> ph\<lparr>name := v\<rparr>) cn em dob)"

subsection \<open>Claim and policy deletion (lines 120-127, 152-155)\<close>

definition delete_claim :: "cms \<Rightarrow> str \<Rightarrow> outcome \<times> cms" where
  "delete_claim s k =
     (if \<not> has_key k (claims s) then (Some (ValidationError (ClaimMissing k)), s)
      else (None, s\<lparr>claims := AList.delete k (claims s)\<rparr>))"

text \<open>The loop \<open>for claim_id in claims_to_delete: self.delete_claim(claim_id)\<close>.\<close>

fun delete_claims :: "cms \<Rightarrow> str list \<Rightarrow> outcome \<times> cms" where
  "delete_claims s [] = (None, s)"
| "delete_claims s (k # ks) =
     (case delete_claim s k of
        (Some e, s') \<Rightarrow> (Some e, s')
      | (None, s') \<Rightarrow> delete_claims s' ks)"

definition claims_of_policy :: "cms \<Rightarrow> str \<Rightarrow> str list" where
  "claims_of_policy s k = map fst (filter (\<lambda>(cid, c). policy_id c = k) (claims s))"

definition delete_policy :: "cms \<Rightarrow> str \<Rightarrow> outcome \<times> cms" where
  "delete_policy s k =
     (if \<not> has_key k (policies s) then (Some (ValidationError (PolicyMissing k)), s)
      else
        (let s1 = s\<lparr>policies := AList.delete k (policies s)\<rparr> in
         delete_claims s1 (claims_of_policy s1 k)))"

text \<open>The loop \<open>for policy_id in policies_to_delete: self.delete_policy(policy_id)\<close>.\<close>

fun delete_policies :: "cms \<Rightarrow> str list \<Rightarrow> outcome \<times> cms" where
  "delete_policies s [] = (None, s)"
| "delete_policies s (k # ks) =
     (case delete_policy s k of
        (Some e, s') \<Rightarrow> (Some e, s')
      | (None, s') \<Rightarrow> delete_policies s' ks)"

definition policies_of_holder :: "cms \<Rightarrow> str \<Rightarrow> str list" where
  "policies_of_holder s k = map fst (filter (\<lambda>(pid, p). policyholder_id p = k) (policies s))"

definition delete_policyholder :: "cms \<Rightarrow> str \<Rightarrow> outcome \<times> cms" where
  "delete_policyholder s k =
     (if \<not> has_key k (policyholders s)
        then (Some (ValidationError (PolicyholderMissing k)), s)
      else
        (let s1 = s\<lparr>policyholders := AList.delete k (policyholders s)\<rparr> in
         delete_policies s1 (policies_of_holder s1 k)))"

subsection \<open>Policy operations (lines 93-118)\<close>

definition create_policy :: "cms \<Rightarrow> Policy \<Rightarrow> outcome \<times> cms" where
  "create_policy s p =
     (case validate_policy s p of
        Some e \<Rightarrow> (Some e, s)
      | None \<Rightarrow>
          if has_key (pol_id p) (policies s)
            then (Some (ValidationError (PolicyExists (pol_id p))), s)
          else (None, s\<lparr>policies := AList.update (pol_id p) p (policies s)\<rparr>))"

text \<open>
  \<open>update_policy\<close> assigns every provided field to the stored object and validates the
  object afterwards; the exception of a failed validation leaves the assignments made.
\<close>

definition assign_policy ::
  "Policy \<Rightarrow> str option \<Rightarrow> datetime option \<Rightarrow> datetime option \<Rightarrow> real option \<Rightarrow> real option
    \<Rightarrow> Policy" where
  "assign_policy p ty sd ed cov prem =
     (let p1 = (case truthy ty of None \<Rightarrow> p | Some v \<Rightarrow> p\<lparr>pol_type := v\<rparr>);
          p2 = (case sd of None \<Rightarrow> p1 | Some v \<Rightarrow> p1\<lparr>start_date := v\<rparr>);
          p3 = (case ed of None \<Rightarrow> p2 | Some v \<Rightarrow> p2\<lparr>end_date := v\<rparr>);
          p4 = (case cov of None \<Rightarrow> p3 | Some v \<Rightarrow> p3\<lparr>coverage_amount := v\<rparr>)
      in (case prem of None \<Rightarrow> p4 | Some v \<Rightarrow> p4\<lparr>premium := v\<rparr>))"

definition update_policy ::
  "cms \<Rightarrow> str \<Rightarrow> str option \<Rightarrow> datetime option \<Rightarrow> datetime option \<Rightarrow> real option
    \<Rightarrow> real option \<Rightarrow> outcome \<times> cms" where
  "update_policy s k ty sd ed cov prem =
     (case map_of (policies s) k of
        None \<Rightarrow> (Some (ValidationError (PolicyMissing k)), s)
      | Some p \<Rightarrow>
          (let p' = assign_policy p ty sd ed cov prem;
               s' = s\<lparr>policies := AList.update k p' (policies s)\<rparr>
           in (validate_policy s' p', s')))"

subsection \<open>Claim operations (lines 130-150)\<close>

definition create_claim :: "cms \<Rightarrow> Claim \<Rightarrow> outcome \<times> cms" where
  "create_claim s c =
     (case validate_claim s c of
        Some e \<Rightarrow> (Some e, s)
      | None \<Rightarrow>
          if has_key (clm_id c) (claims s)
            then (Some (ValidationError (ClaimExists (clm_id c))), s)
          else (None, s\<lparr>claims := AList.update (clm_id c) c (claims s)\<rparr>))"

definition assign_claim ::
  "Claim \<Rightarrow> str option \<Rightarrow> real option \<Rightarrow> ClaimStatus option \<Rightarrow> Claim" where
  "assign_claim c ds am st =
     (let c1 = (case truthy ds of None \<Rightarrow> c | Some v \<Rightarrow> c\<lparr>description := v\<rparr>);
          c2 = (case am of None \<Rightarrow> c1 | Some v \<Rightarrow> c1\<lparr>amount := v\<rparr>)
      in (case st of None \<Rightarrow> c2 | Some v \<Rightarrow> c2\<lparr>status := v\<rparr>))"

definition update_claim ::
  "cms \<Rightarrow> str \<Rightarrow> str option \<Rightarrow> real option \<Rightarrow> ClaimStatus option \<Rightarrow> outcome \<times> cms" where
  "update_claim s k ds am st =
     (case map_of (claims s) k of
        None \<Rightarrow> (Some (ValidationError (ClaimMissing k)), s)
      | Some c \<Rightarrow>
          (let c' = assign_claim c ds am st;
               s' = s\<lparr>claims := AList.update k c' (claims s)\<rparr>
           in (validate_claim s' c', s')))"

section \<open>Operations as data, runs of the engine\<close>

text \<open>
  One constructor for each mutating method with its arguments; the two clock readings of
  \<open>_validate_date_of_birth\<close> are arguments of the two operations that reach it. The read
  methods \<open>get_policyholder\<close>, \<open>get_policy\<close> and \<open>get_claim\<close> return a value and assign
  nothing, so they are no steps of a run.
\<close>

datatype op =
    CreatePolicyholder datetime datetime Policyholder
  | UpdatePolicyholder datetime datetime str "str option" "str option"
      "str option" "datetime option"
  | DeletePolicyholder str
  | CreatePolicy Policy
  | UpdatePolicy str "str option" "datetime option" "datetime option" "real option"
      "real option"
  | DeletePolicy str
  | CreateClaim Claim
  | UpdateClaim str "str option" "real option" "ClaimStatus option"
  | DeleteClaim str

fun step :: "cms \<Rightarrow> op \<Rightarrow> outcome \<times> cms" where
  "step s (CreatePolicyholder now1 now2 ph) = create_policyholder now1 now2 s ph"
| "step s (UpdatePolicyholder now1 now2 k nm cn em dob) =
     update_policyholder now1 now2 s k nm cn em dob"
| "step s (DeletePolicyholder k) = delete_policyholder s k"
| "step s (CreatePolicy p) = create_policy s p"
| "step s (UpdatePolicy k ty sd ed cov prem) = update_policy s k ty sd ed cov prem"
| "step s (DeletePolicy k) = delete_policy s k"
| "step s (CreateClaim c) = create_claim s c"
| "step s (UpdateClaim k ds am st) = update_claim s k ds am st"
| "step s (DeleteClaim k) = delete_claim s k"

fun is_update :: "op \<Rightarrow> bool" where
  "is_update (UpdatePolicyholder now1 now2 k nm cn em dob) = True"
| "is_update (UpdatePolicy k ty sd ed cov prem) = True"
| "is_update (UpdateClaim k ds am st) = True"
| "is_update _ = False"

text \<open>
  A run: the caller issues one operation after another and goes on after an exception
  (the route handlers catch it and answer 400), so a failed step hands on the store it
  left behind.
\<close>

fun run :: "cms \<Rightarrow> op list \<Rightarrow> cms" where
  "run s [] = s"
| "run s (x # xs) = run (snd (step s x)) xs"

definition ref_integrity :: "cms \<Rightarrow> bool" where
  "ref_integrity s =
     ((\<forall>p \<in> snd ` set (policies s). has_key (policyholder_id p) (policyholders s)) \<and>
      (\<forall>c \<in> snd ` set (claims s). has_key (policy_id c) (policies s)))"

section \<open>The earlier variant of the claim operations (SCMS\_CRUD.py, lines 128-158)\<close>

text \<open>
  In SCMS\_CRUD.py a policyholder has no date of birth and a policy no premium; the claim
  class is the same. \<open>create_claim\<close> checks inline, and \<open>update_claim\<close> checks each field
  before assigning it, the status against \<open>CLOSED\<close>.
\<close>

record CRUD_Policyholder =
  crud_ph_id :: str
  crud_name :: str
  crud_contact_number :: str
  crud_email :: str

record CRUD_Policy =
  crud_pol_id :: str
  crud_policyholder_id :: str
  crud_pol_type :: str
  crud_start_date :: datetime
  crud_end_date :: datetime
  crud_coverage_amount :: real

record crud_cms =
  crud_policyholders :: "(str \<times> CRUD_Policyholder) list"
  crud_policies :: "(str \<times> CRUD_Policy) list"
  crud_claims :: "(str \<times> Claim) list"

definition crud_create_claim :: "crud_cms \<Rightarrow> Claim \<Rightarrow> outcome \<times> crud_cms" where
  "crud_create_claim s c =
     (case map_of (crud_policies s) (policy_id c) of
        None \<Rightarrow> (Some (ValidationError (PolicyMissing (policy_id c))), s)
      | Some p \<Rightarrow>
          if has_key (clm_id c) (crud_claims s)
            then (Some (ValidationError (ClaimExists (clm_id c))), s)
          else if date_of_incident c < crud_start_date p \<or> date_of_incident c > crud_end_date p
            then (Some (ValidationError IncidentOutsidePeriod), s)
          else if amount c \<le> 0 \<or> amount c > crud_coverage_amount p
            then (Some (ValidationError (AmountOutOfRange (crud_coverage_amount p))), s)
          else (None, s\<lparr>crud_claims := AList.update (clm_id c) c (crud_claims s)\<rparr>))"

definition crud_set_claim :: "crud_cms \<Rightarrow> str \<Rightarrow> Claim \<Rightarrow> crud_cms" where
  "crud_set_claim s k c = s\<lparr>crud_claims := AList.update k c (crud_claims s)\<rparr>"

definition crud_update_status ::
  "crud_cms \<Rightarrow> str \<Rightarrow> Claim \<Rightarrow> ClaimStatus option \<Rightarrow> outcome \<times> crud_cms" where
  "crud_update_status s k c st =
     (case st of
        None \<Rightarrow> (None, crud_set_claim s k c)
      | Some v \<Rightarrow>
          if status c = CLOSED then (Some (ValidationError ClosedClaim), crud_set_claim s k c)
          else (None, crud_set_claim s k (c\<lparr>status := v\<rparr>)))"

definition crud_update_amount ::
  "crud_cms \<Rightarrow> str \<Rightarrow> Claim \<Rightarrow> real option \<Rightarrow> ClaimStatus option \<Rightarrow> outcome \<times> crud_cms" where
  "crud_update_amount s k c am st =
     (case am of
        None \<Rightarrow> crud_update_status s k c st
      | Some a \<Rightarrow>
          (case map_of (crud_policies s) (policy_id c) of
             None \<Rightarrow> (Some (KeyError (policy_id c)), crud_set_claim s k c)
           | Some p \<Rightarrow>
               if a \<le> 0 \<or> a > crud_coverage_amount p
                 then (Some (ValidationError (AmountOutOfRange (crud_coverage_amount p))),
                       crud_set_claim s k c)
               else crud_update_status s k (c\<lparr>amount := a\<rparr>) st))"

definition crud_update_claim ::
  "crud_cms \<Rightarrow> str \<Rightarrow> str option \<Rightarrow> real option \<Rightarrow> ClaimStatus option
    \<Rightarrow> outcome \<times> crud_cms" where
  "crud_update_claim s k ds am st =
     (case map_of (crud_claims s) k of
        None \<Rightarrow> (Some (ValidationError (ClaimMissing k)), s)
      | Some c \<Rightarrow>
          crud_update_amount s k
            (case truthy ds of None \<Rightarrow> c | Some v \<Rightarrow> c\<lparr>description := v\<rparr>) am st)"

section \<open>A sample store\<close>

text \<open>
  The records of the test suite's \<open>setUp\<close> (SCMS\_Enhanced\_business\_rules.py, lines
  204-208): a policyholder born 1980-01-01, a policy for 2023 with coverage 50000 and a
  claim for an incident on 2023-06-01, submitted on 2023-06-15. Datetimes count the
  microseconds since 1970-01-01 00:00.
\<close>

definition at_day :: "int \<Rightarrow> datetime" where
  "at_day n = n * one_day"

definition PH001 :: Policyholder where
  "PH001 = \<lparr>ph_id = py ''PH001'', name = py ''John Doe'', contact_number = py ''+1234567890'',
            email = py ''john@example.com'', date_of_birth = at_day 3652\<rparr>"

definition POL001 :: Policy where
  "POL001 = \<lparr>pol_id = py ''POL001'', policyholder_id = py ''PH001'', pol_type = py ''Auto'',
             start_date = at_day 19358, end_date = at_day 19723,
             coverage_amount = 50000, premium = 1000\<rparr>"

definition CL001 :: Claim where
  "CL001 = \<lparr>clm_id = py ''CL001'', policy_id = py ''POL001'', date_of_incident = at_day 19509,
            description = py ''Car accident'', amount = 5000, status = SUBMITTED,
            date_submitted = at_day 19523\<rparr>"

definition sample_cms :: cms where
  "sample_cms = \<lparr>policyholders = [(py ''PH001'', PH001)], policies = [(py ''POL001'', POL001)],
                 claims = [(py ''CL001'', CL001)]\<rparr>"

definition CRUD_POL001 :: CRUD_Policy where
  "CRUD_POL001 = \<lparr>crud_pol_id = py ''POL001'', crud_policyholder_id = py ''PH001'',
                  crud_pol_type = py ''Auto'', crud_start_date = at_day 19358,
                  crud_end_date = at_day 19723, crud_coverage_amount = 50000\<rparr>"

definition crud_sample_cms :: crud_cms where
  "crud_sample_cms =
     \<lparr>crud_policyholders =
        [(py ''PH001'', \<lparr>crud_ph_id = py ''PH001'', crud_name = py ''John Doe'',
                      crud_contact_number = py ''+1234567890'', crud_email = py ''john@example.com''\<rparr>)],
      crud_policies = [(py ''POL001'', CRUD_POL001)],
      crud_claims = [(py ''CL001'', CL001)]\<rparr>"

section \<open>Conditions named by the properties\<close>

text \<open>
  Every check of \<open>create_claim\<close> other than the coverage bound passes: the policy exists,
  the claim id is new, the incident lies in the policy period, the amount is positive, and
  (in SCMS\_api.py) the submission is not before the incident and at most 30 whole days
  after it.
\<close>

definition other_claim_checks :: "cms \<Rightarrow> Claim \<Rightarrow> Policy \<Rightarrow> bool" where
  "other_claim_checks s c p =
     (map_of (policies s) (policy_id c) = Some p \<and>
      \<not> has_key (clm_id c) (claims s) \<and>
      start_date p \<le> date_of_incident c \<and> date_of_incident c \<le> end_date p \<and>
      0 < amount c \<and>
      date_of_incident c \<le> date_submitted c \<and>
      days (date_submitted c - date_of_incident c) \<le> 30)"

definition crud_other_claim_checks :: "crud_cms \<Rightarrow> Claim \<Rightarrow> CRUD_Policy \<Rightarrow> bool" where
  "crud_other_claim_checks s c p =
     (map_of (crud_policies s) (policy_id c) = Some p \<and>
      \<not> has_key (clm_id c) (crud_claims s) \<and>
      crud_start_date p \<le> date_of_incident c \<and> date_of_incident c \<le> crud_end_date p \<and>
      0 < amount c)"

text \<open>
  Every check of \<open>create_claim\<close> (SCMS\_api.py) that comes before the 30-day rule passes,
  and the claim id is new.
\<close>

definition deadline_checks :: "cms \<Rightarrow> Claim \<Rightarrow> Policy \<Rightarrow> bool" where
  "deadline_checks s c p =
     (map_of (policies s) (policy_id c) = Some p \<and>
      \<not> has_key (clm_id c) (claims s) \<and>
      start_date p \<le> date_of_incident c \<and> date_of_incident c \<le> end_date p \<and>
      0 < amount c \<and> amount c \<le> coverage_amount p \<and>
      date_of_incident c \<le> date_submitted c)"

text \<open>
  Every check of \<open>_validate_policy\<close> other than the age rule passes; \<open>ph\<close> is the
  policy's holder.
\<close>

definition other_policy_checks :: "cms \<Rightarrow> Policy \<Rightarrow> Policyholder \<Rightarrow> bool" where
  "other_policy_checks s p ph =
     (map_of (policyholders s) (policyholder_id p) = Some ph \<and>
      start_date p < end_date p \<and> 0 < coverage_amount p \<and> 0 < premium p)"

text \<open>
  A second claim on the sample policy, for the same incident as \<open>CL001\<close> and submitted the
  given time after it.
\<close>

definition claim_after :: "timedelta \<Rightarrow> Claim" where
  "claim_after td = CL001\<lparr>clm_id := py ''CL002'', date_submitted := date_of_incident CL001 + td\<rparr>"

definition twelve_hours :: timedelta where
  "twelve_hours = 43200000000"

text \<open>
  The sample store after \<open>update_policy\<close> has lowered the coverage of \<open>POL001\<close> to 1000,
  below the amount of the stored claim.
\<close>

definition low_coverage_cms :: cms where
  "low_coverage_cms =
     sample_cms\<lparr>policies := [(py ''POL001'', POL001\<lparr>coverage_amount := 1000\<rparr>)]\<rparr>"

text \<open>The sample stores with claim \<open>CL001\<close> closed.\<close>

definition closed_cms :: cms where
  "closed_cms = sample_cms\<lparr>claims := [(py ''CL001'', CL001\<lparr>status := CLOSED\<rparr>)]\<rparr>"

definition crud_closed_cms :: crud_cms where
  "crud_closed_cms = crud_sample_cms\<lparr>crud_claims := [(py ''CL001'', CL001\<lparr>status := CLOSED\<rparr>)]\<rparr>"

text \<open>
  A store with two policyholders: \<open>PH001\<close> holds the policies \<open>POL001\<close> and \<open>POL003\<close>,
  \<open>PH002\<close> holds \<open>POL002\<close>, and each policy has one claim.
\<close>

definition PH002 :: Policyholder where
  "PH002 = \<lparr>ph_id = py ''PH002'', name = py ''Jane Doe'', contact_number = py ''+1234567890'',
            email = py ''jane@example.com'', date_of_birth = at_day 5000\<rparr>"

definition two_holders_cms :: cms where
  "two_holders_cms =
     \<lparr>policyholders = [(py ''PH001'', PH001), (py ''PH002'', PH002)],
      policies = [(py ''POL001'', POL001),
                  (py ''POL002'', POL001\<lparr>pol_id := py ''POL002'', policyholder_id := py ''PH002''\<rparr>),
                  (py ''POL003'', POL001\<lparr>pol_id := py ''POL003''\<rparr>)],
      claims = [(py ''CL001'', CL001),
                (py ''CL002'', CL001\<lparr>clm_id := py ''CL002'', policy_id := py ''POL002''\<rparr>),
                (py ''CL003'', CL001\<lparr>clm_id := py ''CL003'', policy_id := py ''POL003''\<rparr>)]\<rparr>"

text \<open>
  The three creations of the test suite, in order, with the clock at 2023-01-01: they
  build the sample store from the empty one.
\<close>

definition sample_ops :: "op list" where
  "sample_ops = [CreatePolicyholder (at_day 19358) (at_day 19358) PH001, CreatePolicy POL001,
                 CreateClaim CL001]"

text \<open>
  What a failed operation leaves in place. An update operation addresses one record of one
  mapping: the other two mappings are as before, the addressed mapping has the same keys
  in the same order, and every record under another key reads as before. Every other
  operation leaves the whole store as before.
\<close>

fun failure_frame :: "op \<Rightarrow> cms \<Rightarrow> cms \<Rightarrow> bool" where
  "failure_frame (UpdatePolicyholder n1 n2 k nm cn em dob) s s' =
     (policies s' = policies s \<and> claims s' = claims s \<and>
      map fst (policyholders s') = map fst (policyholders s) \<and>
      (\<forall>k'. k' \<noteq> k \<longrightarrow> get_policyholder s' k' = get_policyholder s k'))"
| "failure_frame (UpdatePolicy k ty sd ed cov prem) s s' =
     (policyholders s' = policyholders s \<and> claims s' = claims s \<and>
      map fst (policies s') = map fst (policies s) \<and>
      (\<forall>k'. k' \<noteq> k \<longrightarrow> get_policy s' k' = get_policy s k'))"
| "failure_frame (UpdateClaim k ds am st) s s' =
     (policyholders s' = policyholders s \<and> policies s' = policies s \<and>
      map fst (claims s') = map fst (claims s) \<and>
      (\<forall>k'. k' \<noteq> k \<longrightarrow> get_claim s' k' = get_claim s k'))"
| "failure_frame _ s s' = (s' = s)"

text \<open>
  The strings the phone pattern is written for: an optional \<open>+\<close>, an optional \<open>1\<close>, then
  9 to 15 digits, where a digit is what \<open>\d\<close> matches: any Unicode decimal digit.
\<close>

definition digits :: "str \<Rightarrow> bool" where
  "digits ds = (\<forall>c \<in> set ds. unicode_decimal c)"

definition phone_shape :: "str \<Rightarrow> bool" where
  "phone_shape s =
     (\<exists>p q ds. s = p @ q @ ds \<and> (p = [] \<or> p = [plus_sign]) \<and> (q = [] \<or> q = [digit_one]) \<and>
        9 \<le> length ds \<and> length ds \<le> 15 \<and> digits ds)"

text \<open>
  The shape as the specification words it: an optional leading \<open>+1\<close> followed by 9 to 15
  digits.
\<close>

definition claimed_phone_shape :: "str \<Rightarrow> bool" where
  "claimed_phone_shape s =
     (\<exists>p ds. s = p @ ds \<and> (p = [] \<or> p = [plus_sign, digit_one]) \<and>
        9 \<le> length ds \<and> length ds \<le> 15 \<and> digits ds)"

definition ends_with_line_feed :: "str \<Rightarrow> bool" where
  "ends_with_line_feed s = (s \<noteq> [] \<and> last s = line_feed)"

text \<open>
  The shape local@domain.tld: a non-empty local part, one \<open>@\<close>, and after it a non-empty
  domain, a dot and a non-empty rest, none of them with an \<open>@\<close>.
\<close>

definition email_shape :: "str \<Rightarrow> bool" where
  "email_shape s =
     (\<exists>l d t. s = l @ [at_sign] @ d @ [full_stop] @ t \<and> l \<noteq> [] \<and> d \<noteq> [] \<and> t \<noteq> [] \<and>
        at_sign \<notin> set l \<and> at_sign \<notin> set d \<and> at_sign \<notin> set t)"

section \<open>Properties\<close>

subsection \<open>String literals\<close>

text \<open>Different literals are different Python strings.\<close>

lemma py_eq_iff [simp]: "py a = py b \<longleftrightarrow> a = b"
proof -
  have "inj (of_char :: char \<Rightarrow> nat)"
    by (simp add: inj_on_def)
  then show ?thesis
    by (simp add: py_def inj_map_eq_map)
qed

lemma py_empty_iff [simp]: "py a = [] \<longleftrightarrow> a = []"
  by (simp add: py_def)

text \<open>
  Among the first 128 code points the decimal digits are \<open>0\<close> to \<open>9\<close>; the Arabic-Indic
  digits are decimal digits too.
\<close>

lemma unicode_decimal_ascii: "c < 128 \<Longrightarrow> unicode_decimal c \<longleftrightarrow> 48 \<le> c \<and> c \<le> 57"
  by (auto simp: unicode_decimal_def decimal_digit_ranges_def)

lemma unicode_decimal_arabic_indic: "1632 \<le> c \<Longrightarrow> c \<le> 1641 \<Longrightarrow> unicode_decimal c"
  by (simp add: unicode_decimal_def decimal_digit_ranges_def)

text \<open>The equations that evaluate the two validators on a given string.\<close>

lemmas email_eval = py_def validate_email_def email_pattern_def plus1_def at_sign_def
  full_stop_def

lemmas phone_eval = py_def validate_phone_number_def phone_pattern_def re_match_dollar_def
  opt_def between_def eval_nat_numeral plus_sign_def digit_one_def line_feed_def
  unicode_decimal_ascii unicode_decimal_arabic_indic

subsection \<open>The sample store\<close>

text \<open>The sample store is the store after the three creations.\<close>

lemma sample_policyholder_valid:
  "validate_policyholder (at_day 19358) (at_day 19358) PH001 = None"
proof -
  have "validate_email (py ''john@example.com'') = None"
    by (simp add: email_eval)
  moreover have "validate_phone_number (py ''+1234567890'') = None"
    by (simp add: phone_eval)
  moreover have "validate_date_of_birth (at_day 19358) (at_day 19358) (at_day 3652) = None"
    by (simp add: validate_date_of_birth_def at_day_def days_def one_day_def)
  ultimately show ?thesis
    by (simp add: validate_policyholder_def PH001_def)
qed

lemma sample_reachable: "run empty_cms sample_ops = sample_cms"
proof -
  let ?s1 = "\<lparr>policyholders = [(py ''PH001'', PH001)], policies = [], claims = []\<rparr>"
  let ?s2 = "\<lparr>policyholders = [(py ''PH001'', PH001)], policies = [(py ''POL001'', POL001)],
      claims = []\<rparr>"
  have 1: "create_policyholder (at_day 19358) (at_day 19358) empty_cms PH001 = (None, ?s1)"
    using sample_policyholder_valid
    by (simp add: create_policyholder_def empty_cms_def has_key_def PH001_def)
  have 2: "create_policy ?s1 POL001 = (None, ?s2)"
    by (simp add: create_policy_def validate_policy_def has_key_def PH001_def POL001_def
        at_day_def days_def one_day_def)
  have 3: "create_claim ?s2 CL001 = (None, sample_cms)"
    by (simp add: create_claim_def validate_claim_def has_key_def sample_cms_def POL001_def
        CL001_def at_day_def days_def one_day_def)
  from 1 2 3 show ?thesis
    by (simp add: sample_ops_def)
qed

lemma run_append: "run s (xs @ ys) = run (run s xs) ys"
  by (induction xs arbitrary: s) simp_all

subsection \<open>Whole days of a time difference\<close>

lemma days_less_iff: "days td < n \<longleftrightarrow> td < n * one_day"
proof -
  let ?d = "86400000000 :: int"
  have split: "td = ?d * (td div ?d) + td mod ?d"
    by simp
  have lo: "0 \<le> td mod ?d" and hi: "td mod ?d < ?d"
    by simp_all
  show ?thesis
    unfolding days_def one_day_def using split lo hi by linarith
qed

lemma days_le_iff: "n \<le> days td \<longleftrightarrow> n * one_day \<le> td"
  using days_less_iff [of td n] by linarith

lemma days_greater_iff: "n < days td \<longleftrightarrow> (n + 1) * one_day \<le> td"
  using days_le_iff [of "n + 1" td] by linarith

subsection \<open>The coverage bound of a claim\<close>

text \<open>
  C4. In a store that holds the policy a claim refers to, and for a claim that passes every
  other check, \<open>create_claim\<close> raises when the amount is strictly greater than the
  policy's coverage amount (and leaves the store as it was), and inserts the claim when the
  amount equals the coverage amount: the bound is inclusive. This holds for
  \<open>create_claim\<close> of SCMS\_api.py and for that of SCMS\_CRUD.py.
\<close>

theorem create_claim_coverage_inclusive:
  "(other_claim_checks s c p \<longrightarrow>
      (coverage_amount p < amount c \<longrightarrow>
         create_claim s c = (Some (ValidationError (AmountOutOfRange (coverage_amount p))), s)) \<and>
      (amount c = coverage_amount p \<longrightarrow>
         create_claim s c = (None, s\<lparr>claims := AList.update (clm_id c) c (claims s)\<rparr>))) \<and>
   (crud_other_claim_checks t c q \<longrightarrow>
      (crud_coverage_amount q < amount c \<longrightarrow>
         crud_create_claim t c =
           (Some (ValidationError (AmountOutOfRange (crud_coverage_amount q))), t)) \<and>
      (amount c = crud_coverage_amount q \<longrightarrow>
         crud_create_claim t c =
           (None, t\<lparr>crud_claims := AList.update (clm_id c) c (crud_claims t)\<rparr>)))"
  by (auto simp: other_claim_checks_def crud_other_claim_checks_def create_claim_def
      validate_claim_def crud_create_claim_def)

theorem create_claim_coverage_inclusive_witness:
  "create_claim sample_cms (CL001\<lparr>clm_id := py ''CL002'', amount := 50001\<rparr>) =
     (Some (ValidationError (AmountOutOfRange 50000)), sample_cms) \<and>
   create_claim sample_cms (CL001\<lparr>clm_id := py ''CL002'', amount := 50000\<rparr>) =
     (None, sample_cms\<lparr>claims :=
        [(py ''CL001'', CL001), (py ''CL002'', CL001\<lparr>clm_id := py ''CL002'', amount := 50000\<rparr>)]\<rparr>) \<and>
   crud_create_claim crud_sample_cms (CL001\<lparr>clm_id := py ''CL002'', amount := 50001\<rparr>) =
     (Some (ValidationError (AmountOutOfRange 50000)), crud_sample_cms) \<and>
   crud_create_claim crud_sample_cms (CL001\<lparr>clm_id := py ''CL002'', amount := 50000\<rparr>) =
     (None, crud_sample_cms\<lparr>crud_claims :=
        [(py ''CL001'', CL001), (py ''CL002'', CL001\<lparr>clm_id := py ''CL002'', amount := 50000\<rparr>)]\<rparr>)"
  using create_claim_coverage_inclusive
    [of sample_cms "CL001\<lparr>clm_id := py ''CL002'', amount := 50001\<rparr>" POL001 crud_sample_cms CRUD_POL001]
    create_claim_coverage_inclusive
    [of sample_cms "CL001\<lparr>clm_id := py ''CL002'', amount := 50000\<rparr>" POL001 crud_sample_cms CRUD_POL001]
  by (simp add: other_claim_checks_def crud_other_claim_checks_def sample_cms_def
      crud_sample_cms_def CL001_def POL001_def CRUD_POL001_def has_key_def at_day_def
      days_def one_day_def)

subsection \<open>The 30-day rule\<close>

text \<open>
  C5, as stated, fails. A claim submitted 30 days and 12 hours after the incident is
  submitted more than 30 days after it, and \<open>create_claim\<close> inserts it: the rule compares
  \<open>.days\<close>, the whole days of the difference, with 30.
\<close>

theorem create_claim_deadline_counterexample:
  "date_submitted (claim_after (30 * one_day + twelve_hours))
     - date_of_incident (claim_after (30 * one_day + twelve_hours)) > 30 * one_day \<and>
   create_claim sample_cms (claim_after (30 * one_day + twelve_hours)) =
     (None, sample_cms\<lparr>claims :=
        [(py ''CL001'', CL001), (py ''CL002'', claim_after (30 * one_day + twelve_hours))]\<rparr>)"
  by (simp add: claim_after_def twelve_hours_def one_day_def create_claim_def
      validate_claim_def sample_cms_def CL001_def POL001_def has_key_def at_day_def days_def)

text \<open>
  C5, amended. For a claim that passes every other check against an existing policy,
  \<open>create_claim\<close> raises \<open>BusinessRuleViolation\<close> (and leaves the store as it was) when
  the submission is 31 days or more after the incident, that is when the whole days of the
  difference exceed 30; it inserts the claim when the difference is less than 31 days, in
  particular when it is exactly 30 days.
\<close>

theorem create_claim_deadline:
  "deadline_checks s c p \<Longrightarrow>
     (31 * one_day \<le> date_submitted c - date_of_incident c \<longrightarrow>
        create_claim s c = (Some (BusinessRuleViolation LateSubmission), s)) \<and>
     (date_submitted c - date_of_incident c < 31 * one_day \<longrightarrow>
        create_claim s c = (None, s\<lparr>claims := AList.update (clm_id c) c (claims s)\<rparr>))"
  using days_greater_iff [of 30 "date_submitted c - date_of_incident c"]
  by (auto simp: deadline_checks_def create_claim_def validate_claim_def)

theorem create_claim_deadline_witness:
  "create_claim sample_cms (claim_after (31 * one_day)) =
     (Some (BusinessRuleViolation LateSubmission), sample_cms) \<and>
   create_claim sample_cms (claim_after (30 * one_day)) =
     (None, sample_cms\<lparr>claims :=
        [(py ''CL001'', CL001), (py ''CL002'', claim_after (30 * one_day))]\<rparr>)"
  using create_claim_deadline [of sample_cms "claim_after (31 * one_day)" POL001]
    create_claim_deadline [of sample_cms "claim_after (30 * one_day)" POL001]
  by (simp add: deadline_checks_def claim_after_def one_day_def sample_cms_def CL001_def
      POL001_def has_key_def at_day_def)

subsection \<open>The age rule of a policy\<close>

text \<open>
  C6. For a policy whose other checks pass, \<open>create_policy\<close> raises
  \<open>BusinessRuleViolation\<close> when the whole days from the holder's date of birth to the
  policy's start date are fewer than \<open>18 * 365\<close>, and inserts the policy when they are at
  least \<open>18 * 365\<close>; the validation that ends \<open>update_policy\<close> raises
  \<open>BusinessRuleViolation\<close> in exactly the same case, on the policy with the provided
  fields assigned. By \<open>days_less_iff\<close> fewer than \<open>n\<close> whole days is the same as a
  difference shorter than \<open>n\<close> days.
\<close>

theorem policy_age_rule:
  "(other_policy_checks s p ph \<and> \<not> has_key (pol_id p) (policies s) \<longrightarrow>
      (days (start_date p - date_of_birth ph) < 18 * 365 \<longrightarrow>
         create_policy s p = (Some (BusinessRuleViolation UnderageAtStart), s)) \<and>
      (18 * 365 \<le> days (start_date p - date_of_birth ph) \<longrightarrow>
         create_policy s p = (None, s\<lparr>policies := AList.update (pol_id p) p (policies s)\<rparr>))) \<and>
   (map_of (policies s) k = Some p0 \<and>
    other_policy_checks s (assign_policy p0 ty sd ed cov prem) ph \<longrightarrow>
      fst (update_policy s k ty sd ed cov prem) =
        (if days (start_date (assign_policy p0 ty sd ed cov prem) - date_of_birth ph) < 18 * 365
         then Some (BusinessRuleViolation UnderageAtStart) else None))"
  by (auto simp: other_policy_checks_def create_policy_def validate_policy_def
      update_policy_def Let_def)

theorem policy_age_rule_witness:
  "create_policy sample_cms (POL001\<lparr>pol_id := py ''POL002'', start_date := at_day (3652 + 6569)\<rparr>) =
     (Some (BusinessRuleViolation UnderageAtStart), sample_cms) \<and>
   create_policy sample_cms (POL001\<lparr>pol_id := py ''POL002'', start_date := at_day (3652 + 6570)\<rparr>) =
     (None, sample_cms\<lparr>policies :=
        [(py ''POL001'', POL001),
         (py ''POL002'', POL001\<lparr>pol_id := py ''POL002'', start_date := at_day (3652 + 6570)\<rparr>)]\<rparr>) \<and>
   fst (update_policy sample_cms (py ''POL001'') None (Some (at_day (3652 + 6569))) None None None) =
     Some (BusinessRuleViolation UnderageAtStart) \<and>
   fst (update_policy sample_cms (py ''POL001'') None (Some (at_day (3652 + 6570))) None None None) =
     None"
  using policy_age_rule [of sample_cms
      "POL001\<lparr>pol_id := py ''POL002'', start_date := at_day (3652 + 6569)\<rparr>" PH001
      "(py ''POL001'')" POL001 None "Some (at_day (3652 + 6569))" None None None]
    policy_age_rule [of sample_cms
      "POL001\<lparr>pol_id := py ''POL002'', start_date := at_day (3652 + 6570)\<rparr>" PH001
      "(py ''POL001'')" POL001 None "Some (at_day (3652 + 6570))" None None None]
  by (simp add: other_policy_checks_def assign_policy_def sample_cms_def POL001_def PH001_def
      has_key_def at_day_def days_def one_day_def)

subsection \<open>The empty string as an argument of an update\<close>

lemma map_of_update_same: "map_of (AList.update k v al) k = Some v"
  by (simp add: update_conv')

lemma update_stored: "map_of al k = Some v \<Longrightarrow> AList.update k v al = al"
  by (rule update_triv)

lemma set_policyholder_same:
  "map_of (policyholders (set_policyholder s k ph)) k = Some ph"
  by (simp add: set_policyholder_def map_of_update_same)

lemma update_date_of_birth_keeps:
  "\<exists>ph'. map_of (policyholders (snd (update_date_of_birth n1 n2 s k ph dob))) k = Some ph' \<and>
     name ph' = name ph \<and> contact_number ph' = contact_number ph \<and> email ph' = email ph"
  by (auto simp: update_date_of_birth_def set_policyholder_same split: option.splits)

lemma update_email_keeps:
  "\<exists>ph'. map_of (policyholders (snd (update_email n1 n2 s k ph em dob))) k = Some ph' \<and>
     name ph' = name ph \<and> contact_number ph' = contact_number ph \<and>
     (truthy em = None \<longrightarrow> email ph' = email ph)"
  using update_date_of_birth_keeps [of n1 n2 s k ph dob]
    update_date_of_birth_keeps [of n1 n2 s k "ph\<lparr>email := the (truthy em)\<rparr>" dob]
  by (auto simp: update_email_def set_policyholder_same split: option.splits)

lemma update_contact_number_keeps:
  "\<exists>ph'. map_of (policyholders (snd (update_contact_number n1 n2 s k ph cn em dob))) k = Some ph' \<and>
     name ph' = name ph \<and>
     (truthy cn = None \<longrightarrow> contact_number ph' = contact_number ph) \<and>
     (truthy em = None \<longrightarrow> email ph' = email ph)"
  using update_email_keeps [of n1 n2 s k ph em dob]
    update_email_keeps [of n1 n2 s k "ph\<lparr>contact_number := the (truthy cn)\<rparr>" em dob]
  by (auto simp: update_contact_number_def set_policyholder_same split: option.splits)

lemma update_policyholder_keeps:
  assumes "map_of (policyholders s) k = Some ph"
  shows "\<exists>ph'. map_of (policyholders (snd (update_policyholder n1 n2 s k nm cn em dob))) k = Some ph' \<and>
     (truthy nm = None \<longrightarrow> name ph' = name ph) \<and>
     (truthy cn = None \<longrightarrow> contact_number ph' = contact_number ph) \<and>
     (truthy em = None \<longrightarrow> email ph' = email ph)"
  using assms update_contact_number_keeps [of n1 n2 s k ph cn em dob]
    update_contact_number_keeps [of n1 n2 s k "ph\<lparr>name := the (truthy nm)\<rparr>" cn em dob]
  by (auto simp: update_policyholder_def split: option.splits)

lemma update_policyholder_nothing:
  assumes "map_of (policyholders s) k = Some ph"
    and "truthy nm = None" and "truthy cn = None" and "truthy em = None"
  shows "update_policyholder n1 n2 s k nm cn em None = (None, s)"
  using assms
  by (simp add: update_policyholder_def update_contact_number_def update_email_def
      update_date_of_birth_def set_policyholder_def update_stored)

lemma update_claim_keeps:
  assumes "map_of (claims s) k = Some c" and "truthy ds = None"
  shows "\<exists>c'. map_of (claims (snd (update_claim s k ds am st))) k = Some c' \<and>
     description c' = description c"
  using assms
  by (auto simp: update_claim_def assign_claim_def Let_def map_of_update_same
      split: option.splits)

lemma update_policy_keeps:
  assumes "map_of (policies s) k = Some p" and "truthy ty = None"
  shows "\<exists>p'. map_of (policies (snd (update_policy s k ty sd ed cov prem))) k = Some p' \<and>
     pol_type p' = pol_type p"
  using assms
  by (auto simp: update_policy_def assign_policy_def Let_def map_of_update_same
      split: option.splits)

text \<open>
  C10, as stated, fails: the call need not succeed. \<open>update_policy\<close> lowers the coverage of
  \<open>POL001\<close> to 1000 and returns normally, since it does not look at the claims on the
  policy. In the store it leaves, \<open>update_claim\<close> with the empty string for the description
  and nothing else validates the stored claim, whose amount 5000 now exceeds the coverage,
  and raises.
\<close>

theorem empty_string_update_counterexample:
  "run empty_cms (sample_ops @ [UpdatePolicy (py ''POL001'') None None None (Some 1000) None]) =
     low_coverage_cms \<and>
   update_policy sample_cms (py ''POL001'') None None None (Some 1000) None =
     (None, low_coverage_cms) \<and>
   get_claim low_coverage_cms (py ''CL001'') = Some CL001 \<and>
   update_claim low_coverage_cms (py ''CL001'') (Some []) None None =
     (Some (ValidationError (AmountOutOfRange 1000)), low_coverage_cms)"
proof -
  have u: "update_policy sample_cms (py ''POL001'') None None None (Some 1000) None =
      (None, low_coverage_cms)"
    by (simp add: update_policy_def assign_policy_def validate_policy_def low_coverage_cms_def
        sample_cms_def PH001_def POL001_def at_day_def days_def one_day_def)
  have r: "run empty_cms
      (sample_ops @ [UpdatePolicy (py ''POL001'') None None None (Some 1000) None]) =
      low_coverage_cms"
    using u by (simp add: run_append sample_reachable)
  have g: "get_claim low_coverage_cms (py ''CL001'') = Some CL001"
    by (simp add: get_claim_def low_coverage_cms_def sample_cms_def)
  have c: "update_claim low_coverage_cms (py ''CL001'') (Some []) None None =
      (Some (ValidationError (AmountOutOfRange 1000)), low_coverage_cms)"
    by (simp add: update_claim_def assign_claim_def validate_claim_def low_coverage_cms_def
        sample_cms_def POL001_def CL001_def at_day_def one_day_def Let_def)
  from r u g c show ?thesis by simp
qed

text \<open>
  C10, amended. An empty string given for \<open>name\<close>, \<open>contact_number\<close> or \<open>email\<close> to
  \<open>update_policyholder\<close>, for \<open>description\<close> to \<open>update_claim\<close> or for \<open>type\<close> to
  \<open>update_policy\<close> is the field not being provided: the call is the call with \<open>None\<close> for
  that field, outcome and store alike, so it succeeds exactly when the call without the
  field succeeds. The field's validator is not run (on the empty string the phone and the
  email validator both raise); the stored record keeps the field's value whatever the other
  arguments are, so no update stores an empty string. In particular \<open>update_policyholder\<close>
  with nothing but empty strings succeeds on a stored policyholder, and \<open>update_claim\<close> and
  \<open>update_policy\<close> with nothing but the empty string succeed on a stored record that passes
  their validation.
\<close>

theorem empty_string_is_not_provided:
  "update_policyholder n1 n2 s k (Some []) cn em dob =
     update_policyholder n1 n2 s k None cn em dob \<and>
   update_policyholder n1 n2 s k nm (Some []) em dob =
     update_policyholder n1 n2 s k nm None em dob \<and>
   update_policyholder n1 n2 s k nm cn (Some []) dob =
     update_policyholder n1 n2 s k nm cn None dob \<and>
   update_claim s k (Some []) am st = update_claim s k None am st \<and>
   update_policy s k (Some []) sd ed cov prem = update_policy s k None sd ed cov prem \<and>
   validate_phone_number [] = Some (ValidationError InvalidPhone) \<and>
   validate_email [] = Some (ValidationError InvalidEmail) \<and>
   (map_of (policyholders s) k = Some ph \<longrightarrow>
      update_policyholder n1 n2 s k (Some []) (Some []) (Some []) None = (None, s) \<and>
      (\<exists>ph'. map_of (policyholders (snd (update_policyholder n1 n2 s k (Some []) cn em dob))) k
          = Some ph' \<and> name ph' = name ph) \<and>
      (\<exists>ph'. map_of (policyholders (snd (update_policyholder n1 n2 s k nm (Some []) em dob))) k
          = Some ph' \<and> contact_number ph' = contact_number ph) \<and>
      (\<exists>ph'. map_of (policyholders (snd (update_policyholder n1 n2 s k nm cn (Some []) dob))) k
          = Some ph' \<and> email ph' = email ph)) \<and>
   (map_of (claims s) k = Some c \<longrightarrow>
      (validate_claim s c = None \<longrightarrow> update_claim s k (Some []) None None = (None, s)) \<and>
      (\<exists>c'. map_of (claims (snd (update_claim s k (Some []) am st))) k = Some c' \<and>
          description c' = description c)) \<and>
   (map_of (policies s) k = Some p \<longrightarrow>
      (validate_policy s p = None \<longrightarrow>
         update_policy s k (Some []) None None None None = (None, s)) \<and>
      (\<exists>p'. map_of (policies (snd (update_policy s k (Some []) sd ed cov prem))) k = Some p' \<and>
          pol_type p' = pol_type p))"
proof -
  have eqs:
    "update_policyholder n1 n2 s k (Some []) cn em dob =
       update_policyholder n1 n2 s k None cn em dob"
    "update_policyholder n1 n2 s k nm (Some []) em dob =
       update_policyholder n1 n2 s k nm None em dob"
    "update_policyholder n1 n2 s k nm cn (Some []) dob =
       update_policyholder n1 n2 s k nm cn None dob"
    "update_claim s k (Some []) am st = update_claim s k None am st"
    "update_policy s k (Some []) sd ed cov prem = update_policy s k None sd ed cov prem"
    by (simp_all add: update_policyholder_def update_contact_number_def update_email_def
        update_claim_def assign_claim_def update_policy_def assign_policy_def
        cong del: option.case_cong_weak)
  have vals: "validate_phone_number [] = Some (ValidationError InvalidPhone)"
    "validate_email [] = Some (ValidationError InvalidEmail)"
    by (simp_all add: validate_phone_number_def validate_email_def re_match_dollar_def
        phone_pattern_def email_pattern_def between_def opt_def plus1_def eval_nat_numeral)
  have ph: "update_policyholder n1 n2 s k (Some []) (Some []) (Some []) None = (None, s) \<and>
      (\<exists>ph'. map_of (policyholders (snd (update_policyholder n1 n2 s k (Some []) cn em dob))) k
          = Some ph' \<and> name ph' = name ph) \<and>
      (\<exists>ph'. map_of (policyholders (snd (update_policyholder n1 n2 s k nm (Some []) em dob))) k
          = Some ph' \<and> contact_number ph' = contact_number ph) \<and>
      (\<exists>ph'. map_of (policyholders (snd (update_policyholder n1 n2 s k nm cn (Some []) dob))) k
          = Some ph' \<and> email ph' = email ph)"
    if h: "map_of (policyholders s) k = Some ph"
    using update_policyholder_nothing [OF h, of "Some []" "Some []" "Some []" n1 n2]
      update_policyholder_keeps [OF h, of n1 n2 "Some []" cn em dob]
      update_policyholder_keeps [OF h, of n1 n2 nm "Some []" em dob]
      update_policyholder_keeps [OF h, of n1 n2 nm cn "Some []" dob]
    by auto
  have cl: "(validate_claim s c = None \<longrightarrow> update_claim s k (Some []) None None = (None, s)) \<and>
      (\<exists>c'. map_of (claims (snd (update_claim s k (Some []) am st))) k = Some c' \<and>
          description c' = description c)"
    if h: "map_of (claims s) k = Some c"
    using update_claim_keeps [OF h, of "Some []" am st] h
    by (simp add: update_claim_def assign_claim_def update_stored)
  have po: "(validate_policy s p = None \<longrightarrow>
         update_policy s k (Some []) None None None None = (None, s)) \<and>
      (\<exists>p'. map_of (policies (snd (update_policy s k (Some []) sd ed cov prem))) k = Some p' \<and>
          pol_type p' = pol_type p)"
    if h: "map_of (policies s) k = Some p"
    using update_policy_keeps [OF h, of "Some []" sd ed cov prem] h
    by (simp add: update_policy_def assign_policy_def update_stored)
  from eqs vals ph cl po show ?thesis
    by blast
qed

theorem empty_string_is_not_provided_witness:
  "update_policyholder 0 0 sample_cms (py ''PH001'') (Some []) (Some []) (Some []) None
     = (None, sample_cms) \<and>
   update_claim sample_cms (py ''CL001'') (Some []) None None = (None, sample_cms) \<and>
   update_policy sample_cms (py ''POL001'') (Some []) None None None None = (None, sample_cms) \<and>
   update_claim sample_cms (py ''CL001'') (Some []) None (Some APPROVED) =
     update_claim sample_cms (py ''CL001'') None None (Some APPROVED)"
proof -
  have a: "map_of (policyholders sample_cms) (py ''PH001'') = Some PH001"
    and b: "map_of (claims sample_cms) (py ''CL001'') = Some CL001"
    and c: "map_of (policies sample_cms) (py ''POL001'') = Some POL001"
    by (simp_all add: sample_cms_def)
  have vc: "validate_claim sample_cms CL001 = None"
    by (simp add: validate_claim_def sample_cms_def CL001_def POL001_def at_day_def days_def
        one_day_def)
  have vp: "validate_policy sample_cms POL001 = None"
    by (simp add: validate_policy_def sample_cms_def PH001_def POL001_def at_day_def days_def
        one_day_def)
  have 1: "update_policyholder 0 0 sample_cms (py ''PH001'') (Some []) (Some []) (Some []) None
     = (None, sample_cms)"
    using a empty_string_is_not_provided
      [where s = sample_cms and k = "(py ''PH001'')" and ph = PH001 and ?n1.0 = 0 and ?n2.0 = 0]
    by blast
  have 2: "update_claim sample_cms (py ''CL001'') (Some []) None None = (None, sample_cms)"
    using b vc empty_string_is_not_provided
      [where s = sample_cms and k = "(py ''CL001'')" and c = CL001]
    by blast
  have 3: "update_policy sample_cms (py ''POL001'') (Some []) None None None None = (None, sample_cms)"
    using c vp empty_string_is_not_provided
      [where s = sample_cms and k = "(py ''POL001'')" and p = POL001]
    by blast
  have 4: "update_claim sample_cms (py ''CL001'') (Some []) None (Some APPROVED) =
     update_claim sample_cms (py ''CL001'') None None (Some APPROVED)"
    using empty_string_is_not_provided
      [where s = sample_cms and k = "(py ''CL001'')" and am = None and st = "Some APPROVED"]
    by blast
  from 1 2 3 4 show ?thesis by simp
qed

subsection \<open>Updates of a closed claim\<close>

text \<open>
  C2 does not hold of the code. In the sample store with \<open>CL001\<close> closed, \<open>update_claim\<close> of
  SCMS\_api.py, which has no test of the status, returns normally and changes the
  description, the amount, and the status from \<open>CLOSED\<close> back to \<open>SUBMITTED\<close>.
  \<open>update_claim\<close> of SCMS\_CRUD.py raises "Cannot update a closed claim" only when a
  status is given: with a description and an amount it returns normally and changes both,
  and with a description and a status it raises after the description has been changed.
\<close>

theorem closed_claim_still_updated:
  "update_claim closed_cms (py ''CL001'') (Some (py ''edited'')) None None =
     (None, closed_cms\<lparr>claims :=
        [(py ''CL001'', CL001\<lparr>status := CLOSED, description := py ''edited''\<rparr>)]\<rparr>) \<and>
   update_claim closed_cms (py ''CL001'') None (Some 7000) None =
     (None, closed_cms\<lparr>claims := [(py ''CL001'', CL001\<lparr>status := CLOSED, amount := 7000\<rparr>)]\<rparr>) \<and>
   update_claim closed_cms (py ''CL001'') None None (Some SUBMITTED) =
     (None, closed_cms\<lparr>claims := [(py ''CL001'', CL001\<lparr>status := SUBMITTED\<rparr>)]\<rparr>) \<and>
   crud_update_claim crud_closed_cms (py ''CL001'') (Some (py ''edited'')) (Some 7000) None =
     (None, crud_closed_cms\<lparr>crud_claims :=
        [(py ''CL001'', CL001\<lparr>status := CLOSED, description := py ''edited'', amount := 7000\<rparr>)]\<rparr>) \<and>
   crud_update_claim crud_closed_cms (py ''CL001'') (Some (py ''edited'')) None (Some SUBMITTED) =
     (Some (ValidationError ClosedClaim), crud_closed_cms\<lparr>crud_claims :=
        [(py ''CL001'', CL001\<lparr>status := CLOSED, description := py ''edited''\<rparr>)]\<rparr>)"
  by (simp add: closed_cms_def crud_closed_cms_def sample_cms_def crud_sample_cms_def
      update_claim_def assign_claim_def validate_claim_def crud_update_claim_def
      crud_update_amount_def crud_update_status_def crud_set_claim_def CL001_def POL001_def
      CRUD_POL001_def at_day_def days_def one_day_def)

subsection \<open>Cascading deletion\<close>

text \<open>
  The two loops of the cascade never raise in a store with distinct keys: the ids they
  delete were collected from the mapping itself. So each delete operation on a stored id
  returns normally, and its result is the store filtered.
\<close>

lemma has_key_iff: "has_key k al \<longleftrightarrow> map_of al k \<noteq> None"
  by (simp add: has_key_def map_of_eq_None_iff)

lemma keys_filter_distinct:
  assumes "distinct (map fst al)" and "(k, v) \<in> set al"
  shows "k \<in> fst ` set (filter P al) \<longleftrightarrow> P (k, v)"
proof
  assume "k \<in> fst ` set (filter P al)"
  then obtain w where w: "(k, w) \<in> set al" "P (k, w)"
    by auto
  with assms have "w = v"
    by (meson eq_key_imp_eq_value)
  with w show "P (k, v)" by simp
next
  assume "P (k, v)"
  with assms(2) show "k \<in> fst ` set (filter P al)"
    by force
qed

lemma map_of_filter_distinct:
  assumes "distinct (map fst al)"
  shows "map_of (filter P al) k =
    (case map_of al k of None \<Rightarrow> None | Some v \<Rightarrow> if P (k, v) then Some v else None)"
  using assms
proof (induction al)
  case Nil
  then show ?case by simp
next
  case (Cons a al)
  obtain k' v' where a: "a = (k', v')" by (cases a)
  from Cons.prems a have notin: "k' \<notin> fst ` set al" and d: "distinct (map fst al)"
    by auto
  from notin have none: "map_of al k' = None"
    by (simp add: map_of_eq_None_iff)
  from notin have none': "map_of (filter P al) k' = None"
    by (auto simp: map_of_eq_None_iff)
  show ?case
    using Cons.IH [OF d] a none none' by (auto split: option.splits)
qed

lemma keys_delete: "fst ` set (AList.delete k al) = fst ` set al - {k}"
proof -
  have "set (map fst (AList.delete k al)) = set (removeAll k (map fst al))"
    by (simp only: delete_keys)
  then show ?thesis by simp
qed

lemma distinct_keys_filter: "distinct (map fst al) \<Longrightarrow> distinct (map fst (filter P al))"
  by (rule distinct_map_filter)

lemma delete_claims_removes:
  assumes "set ks \<subseteq> fst ` set (claims s)" and "distinct ks"
  shows "delete_claims s ks = (None, s\<lparr>claims := filter (\<lambda>(k, c). k \<notin> set ks) (claims s)\<rparr>)"
  using assms
proof (induction ks arbitrary: s)
  case Nil
  then show ?case by simp
next
  case (Cons k ks)
  let ?s1 = "s\<lparr>claims := AList.delete k (claims s)\<rparr>"
  from Cons.prems have k: "has_key k (claims s)"
    by (simp add: has_key_def)
  then have step1: "delete_claim s k = (None, ?s1)"
    by (simp add: delete_claim_def)
  from Cons.prems have "set ks \<subseteq> fst ` set (claims ?s1)" and "distinct ks"
    by (auto simp: keys_delete)
  from Cons.IH [OF this]
  have "delete_claims ?s1 ks =
      (None, ?s1\<lparr>claims := filter (\<lambda>(k, c). k \<notin> set ks) (claims ?s1)\<rparr>)" .
  moreover have "filter (\<lambda>(k', c). k' \<notin> set ks) (AList.delete k (claims s)) =
      filter (\<lambda>(k', c). k' \<notin> set (k # ks)) (claims s)"
    by (auto simp: AList.delete_eq intro: filter_cong)
  ultimately show ?case
    using step1 by simp
qed

lemma delete_policy_removes:
  assumes "distinct (map fst (claims s))" and "has_key k (policies s)"
  shows "delete_policy s k =
    (None, s\<lparr>policies := AList.delete k (policies s),
             claims := filter (\<lambda>(cid, c). policy_id c \<noteq> k) (claims s)\<rparr>)"
proof -
  let ?s1 = "s\<lparr>policies := AList.delete k (policies s)\<rparr>"
  let ?ks = "claims_of_policy ?s1 k"
  have sub: "set ?ks \<subseteq> fst ` set (claims ?s1)"
    by (auto simp: claims_of_policy_def)
  have dist: "distinct ?ks"
    using assms(1) by (simp add: claims_of_policy_def distinct_map_filter)
  have "filter (\<lambda>(cid, c). cid \<notin> set ?ks) (claims s) =
      filter (\<lambda>(cid, c). policy_id c \<noteq> k) (claims s)"
  proof (rule filter_cong [OF refl])
    fix x assume x: "x \<in> set (claims s)"
    obtain cid c where xc: "x = (cid, c)" by (cases x)
    from keys_filter_distinct [OF assms(1), of cid c "\<lambda>(cid, c). policy_id c = k"] x xc
    show "(case x of (cid, c) \<Rightarrow> cid \<notin> set ?ks) = (case x of (cid, c) \<Rightarrow> policy_id c \<noteq> k)"
      by (simp add: claims_of_policy_def)
  qed
  with delete_claims_removes [OF sub dist] assms(2) show ?thesis
    by (simp add: delete_policy_def)
qed

lemma delete_policies_removes:
  assumes "distinct (map fst (claims s))"
    and "set ks \<subseteq> fst ` set (policies s)" and "distinct ks"
  shows "delete_policies s ks =
    (None, s\<lparr>policies := filter (\<lambda>(k, p). k \<notin> set ks) (policies s),
             claims := filter (\<lambda>(cid, c). policy_id c \<notin> set ks) (claims s)\<rparr>)"
  using assms
proof (induction ks arbitrary: s)
  case Nil
  then show ?case by simp
next
  case (Cons k ks)
  let ?s1 = "s\<lparr>policies := AList.delete k (policies s),
               claims := filter (\<lambda>(cid, c). policy_id c \<noteq> k) (claims s)\<rparr>"
  from Cons.prems have "has_key k (policies s)"
    by (simp add: has_key_def)
  from delete_policy_removes [OF Cons.prems(1) this]
  have step1: "delete_policy s k = (None, ?s1)" .
  from Cons.prems have "distinct (map fst (claims ?s1))"
    and "set ks \<subseteq> fst ` set (policies ?s1)" and "distinct ks"
    by (auto simp: keys_delete distinct_map_filter)
  from Cons.IH [OF this]
  have "delete_policies ?s1 ks =
      (None, ?s1\<lparr>policies := filter (\<lambda>(k, p). k \<notin> set ks) (policies ?s1),
                  claims := filter (\<lambda>(cid, c). policy_id c \<notin> set ks) (claims ?s1)\<rparr>)" .
  moreover have "filter (\<lambda>(k', p). k' \<notin> set ks) (AList.delete k (policies s)) =
      filter (\<lambda>(k', p). k' \<notin> set (k # ks)) (policies s)"
    by (auto simp: AList.delete_eq intro: filter_cong)
  moreover have "filter (\<lambda>(cid, c). policy_id c \<notin> set ks)
        (filter (\<lambda>(cid, c). policy_id c \<noteq> k) (claims s)) =
      filter (\<lambda>(cid, c). policy_id c \<notin> set (k # ks)) (claims s)"
    by (auto intro: filter_cong)
  ultimately show ?case
    using step1 by simp
qed

lemma delete_policyholder_removes:
  assumes "wf_cms s" and "has_key k (policyholders s)"
  shows "delete_policyholder s k =
    (None, \<lparr>policyholders = AList.delete k (policyholders s),
            policies = filter (\<lambda>(pid, p). policyholder_id p \<noteq> k) (policies s),
            claims = filter (\<lambda>(cid, c). policy_id c \<notin> set (policies_of_holder s k)) (claims s)\<rparr>)"
proof -
  let ?s1 = "s\<lparr>policyholders := AList.delete k (policyholders s)\<rparr>"
  let ?ks = "policies_of_holder ?s1 k"
  from assms(1) have dp: "distinct (map fst (policies s))" and dc: "distinct (map fst (claims s))"
    by (simp_all add: wf_cms_def)
  have same: "?ks = policies_of_holder s k"
    by (simp add: policies_of_holder_def)
  have sub: "set ?ks \<subseteq> fst ` set (policies ?s1)"
    by (auto simp: policies_of_holder_def)
  have dist: "distinct ?ks"
    using dp by (simp add: policies_of_holder_def distinct_map_filter)
  have dc1: "distinct (map fst (claims ?s1))"
    using dc by simp
  have "filter (\<lambda>(pid, p). pid \<notin> set ?ks) (policies s) =
      filter (\<lambda>(pid, p). policyholder_id p \<noteq> k) (policies s)"
  proof (rule filter_cong [OF refl])
    fix x assume x: "x \<in> set (policies s)"
    obtain pid p where xp: "x = (pid, p)" by (cases x)
    from keys_filter_distinct [OF dp, of pid p "\<lambda>(pid, p). policyholder_id p = k"] x xp
    show "(case x of (pid, p) \<Rightarrow> pid \<notin> set ?ks) =
        (case x of (pid, p) \<Rightarrow> policyholder_id p \<noteq> k)"
      by (simp add: policies_of_holder_def)
  qed
  with delete_policies_removes [OF dc1 sub dist] assms(2) same show ?thesis
    by (simp add: delete_policyholder_def)
qed

text \<open>
  C3, as stated, fails. The store \<open>two_holders_cms\<close> holds the policyholder \<open>PH001\<close>, its
  policy \<open>POL001\<close> and the claim \<open>CL001\<close> on that policy. Deleting \<open>PH001\<close> returns
  normally and removes two more records: \<open>POL003\<close>, the holder's second policy, and
  \<open>CL003\<close>, the claim on it.
\<close>

theorem delete_policyholder_cascades_counterexample:
  "wf_cms two_holders_cms \<and>
   get_policyholder two_holders_cms (py ''PH001'') = Some PH001 \<and>
   get_policy two_holders_cms (py ''POL001'') = Some POL001 \<and>
   policyholder_id POL001 = py ''PH001'' \<and>
   get_claim two_holders_cms (py ''CL001'') = Some CL001 \<and>
   policy_id CL001 = py ''POL001'' \<and>
   fst (delete_policyholder two_holders_cms (py ''PH001'')) = None \<and>
   get_policy two_holders_cms (py ''POL003'') = Some (POL001\<lparr>pol_id := py ''POL003''\<rparr>) \<and>
   get_policy (snd (delete_policyholder two_holders_cms (py ''PH001''))) (py ''POL003'') = None \<and>
   get_claim two_holders_cms (py ''CL003'') =
     Some (CL001\<lparr>clm_id := py ''CL003'', policy_id := py ''POL003''\<rparr>) \<and>
   get_claim (snd (delete_policyholder two_holders_cms (py ''PH001''))) (py ''CL003'') = None"
proof -
  have wf: "wf_cms two_holders_cms"
    by (simp add: wf_cms_def two_holders_cms_def)
  have "has_key (py ''PH001'') (policyholders two_holders_cms)"
    by (simp add: has_key_def two_holders_cms_def)
  from delete_policyholder_removes [OF wf this]
  have "delete_policyholder two_holders_cms (py ''PH001'') =
      (None, \<lparr>policyholders = [(py ''PH002'', PH002)],
        policies = [(py ''POL002'', POL001\<lparr>pol_id := py ''POL002'', policyholder_id := py ''PH002''\<rparr>)],
        claims = [(py ''CL002'', CL001\<lparr>clm_id := py ''CL002'', policy_id := py ''POL002''\<rparr>)]\<rparr>)"
    by (simp add: two_holders_cms_def policies_of_holder_def POL001_def CL001_def)
  with wf show ?thesis
    by (simp add: get_policyholder_def get_policy_def get_claim_def two_holders_cms_def
        POL001_def CL001_def)
qed

text \<open>
  C3, amended. In a store (with distinct keys) that holds a policyholder under \<open>hid\<close>, a
  policy of that holder under \<open>pid\<close> and a claim on that policy under \<open>cid\<close>,
  \<open>delete_policyholder hid\<close> returns normally, and in the store it leaves all three reads
  return the absent indicator. The records removed are those of the cascade, and no others:
  every policy of the deleted holder and every claim on such a policy is removed, while
  every other policyholder, every policy of another holder, and every claim whose policy
  is not a policy of the deleted holder is still returned as before.
\<close>

theorem delete_policyholder_cascades:
  assumes "wf_cms s"
    and "get_policyholder s hid = Some ph"
    and "get_policy s pid = Some p" and "policyholder_id p = hid"
    and "get_claim s cid = Some c" and "policy_id c = pid"
  shows "\<exists>s'. delete_policyholder s hid = (None, s') \<and>
     get_policyholder s' hid = None \<and> get_policy s' pid = None \<and> get_claim s' cid = None \<and>
     (\<forall>k. k \<noteq> hid \<longrightarrow> get_policyholder s' k = get_policyholder s k) \<and>
     (\<forall>k q. get_policy s k = Some q \<and> policyholder_id q \<noteq> hid \<longrightarrow> get_policy s' k = Some q) \<and>
     (\<forall>k d. get_claim s k = Some d \<and>
        (\<forall>q. get_policy s (policy_id d) = Some q \<longrightarrow> policyholder_id q \<noteq> hid) \<longrightarrow>
        get_claim s' k = Some d) \<and>
     (\<forall>k q. get_policy s k = Some q \<and> policyholder_id q = hid \<longrightarrow> get_policy s' k = None) \<and>
     (\<forall>k d q. get_claim s k = Some d \<and> get_policy s (policy_id d) = Some q \<and>
        policyholder_id q = hid \<longrightarrow> get_claim s' k = None)"
proof -
  let ?s' = "\<lparr>policyholders = AList.delete hid (policyholders s),
            policies = filter (\<lambda>(pid, p). policyholder_id p \<noteq> hid) (policies s),
            claims = filter (\<lambda>(cid, c). policy_id c \<notin> set (policies_of_holder s hid)) (claims s)\<rparr>"
  from assms(1) have dp: "distinct (map fst (policies s))" and dc: "distinct (map fst (claims s))"
    by (simp_all add: wf_cms_def)
  from assms(2) have "has_key hid (policyholders s)"
    by (simp add: has_key_iff get_policyholder_def)
  from delete_policyholder_removes [OF assms(1) this]
  have del: "delete_policyholder s hid = (None, ?s')" .
  have of_holder: "k \<in> set (policies_of_holder s hid) \<longleftrightarrow>
      (\<exists>q. get_policy s k = Some q \<and> policyholder_id q = hid)" for k
  proof
    assume "k \<in> set (policies_of_holder s hid)"
    then obtain q where "(k, q) \<in> set (policies s)" "policyholder_id q = hid"
      by (auto simp: policies_of_holder_def)
    with dp show "\<exists>q. get_policy s k = Some q \<and> policyholder_id q = hid"
      by (auto simp: get_policy_def)
  next
    assume "\<exists>q. get_policy s k = Some q \<and> policyholder_id q = hid"
    then obtain q where "(k, q) \<in> set (policies s)" "policyholder_id q = hid"
      by (auto simp: get_policy_def dest: map_of_SomeD)
    then show "k \<in> set (policies_of_holder s hid)"
      by (force simp: policies_of_holder_def)
  qed
  have 1: "get_policyholder ?s' hid = None"
    by (simp add: get_policyholder_def delete_conv')
  have 2: "get_policy ?s' pid = None"
    using assms(3,4) by (simp add: get_policy_def map_of_filter_distinct [OF dp])
  have 3: "get_claim ?s' cid = None"
    using assms(3-6) of_holder [of pid]
    by (simp add: get_claim_def map_of_filter_distinct [OF dc])
  have 4: "\<forall>k. k \<noteq> hid \<longrightarrow> get_policyholder ?s' k = get_policyholder s k"
    by (simp add: get_policyholder_def delete_conv')
  have 5: "\<forall>k q. get_policy s k = Some q \<and> policyholder_id q \<noteq> hid \<longrightarrow> get_policy ?s' k = Some q"
    by (simp add: get_policy_def map_of_filter_distinct [OF dp])
  have 6: "\<forall>k d. get_claim s k = Some d \<and>
        (\<forall>q. get_policy s (policy_id d) = Some q \<longrightarrow> policyholder_id q \<noteq> hid) \<longrightarrow>
        get_claim ?s' k = Some d"
    using of_holder by (auto simp: get_claim_def map_of_filter_distinct [OF dc])
  have 7: "\<forall>k q. get_policy s k = Some q \<and> policyholder_id q = hid \<longrightarrow> get_policy ?s' k = None"
    by (simp add: get_policy_def map_of_filter_distinct [OF dp])
  have 8: "\<forall>k d q. get_claim s k = Some d \<and> get_policy s (policy_id d) = Some q \<and>
        policyholder_id q = hid \<longrightarrow> get_claim ?s' k = None"
    using of_holder by (auto simp: get_claim_def map_of_filter_distinct [OF dc])
  from del 1 2 3 4 5 6 7 8 show ?thesis
    by blast
qed

theorem delete_policyholder_cascades_witness:
  "fst (delete_policyholder two_holders_cms (py ''PH001'')) = None \<and>
   get_policyholder (snd (delete_policyholder two_holders_cms (py ''PH001''))) (py ''PH001'') = None \<and>
   get_policy (snd (delete_policyholder two_holders_cms (py ''PH001''))) (py ''POL001'') = None \<and>
   get_claim (snd (delete_policyholder two_holders_cms (py ''PH001''))) (py ''CL001'') = None \<and>
   get_policyholder (snd (delete_policyholder two_holders_cms (py ''PH001''))) (py ''PH002'') = Some PH002 \<and>
   get_policy (snd (delete_policyholder two_holders_cms (py ''PH001''))) (py ''POL002'') =
     Some (POL001\<lparr>pol_id := py ''POL002'', policyholder_id := py ''PH002''\<rparr>) \<and>
   get_claim (snd (delete_policyholder two_holders_cms (py ''PH001''))) (py ''CL002'') =
     Some (CL001\<lparr>clm_id := py ''CL002'', policy_id := py ''POL002''\<rparr>)"
proof -
  have wf: "wf_cms two_holders_cms"
    by (simp add: wf_cms_def two_holders_cms_def)
  have h: "get_policyholder two_holders_cms (py ''PH001'') = Some PH001"
    "get_policy two_holders_cms (py ''POL001'') = Some POL001" "policyholder_id POL001 = py ''PH001''"
    "get_claim two_holders_cms (py ''CL001'') = Some CL001" "policy_id CL001 = py ''POL001''"
    by (simp_all add: get_policyholder_def get_policy_def get_claim_def two_holders_cms_def
        POL001_def CL001_def)
  have others: "get_policyholder two_holders_cms (py ''PH002'') = Some PH002"
    "get_policy two_holders_cms (py ''POL002'') =
       Some (POL001\<lparr>pol_id := py ''POL002'', policyholder_id := py ''PH002''\<rparr>)"
    "get_claim two_holders_cms (py ''CL002'') =
       Some (CL001\<lparr>clm_id := py ''CL002'', policy_id := py ''POL002''\<rparr>)"
    by (simp_all add: get_policyholder_def get_policy_def get_claim_def two_holders_cms_def)
  from delete_policyholder_cascades [OF wf h]
  obtain s' where s': "delete_policyholder two_holders_cms (py ''PH001'') = (None, s')"
    and gone: "get_policyholder s' (py ''PH001'') = None" "get_policy s' (py ''POL001'') = None"
      "get_claim s' (py ''CL001'') = None"
    and holders: "\<forall>k. k \<noteq> (py ''PH001'') \<longrightarrow> get_policyholder s' k = get_policyholder two_holders_cms k"
    and pols: "\<forall>k q. get_policy two_holders_cms k = Some q \<and> policyholder_id q \<noteq> (py ''PH001'') \<longrightarrow>
        get_policy s' k = Some q"
    and clms: "\<forall>k d. get_claim two_holders_cms k = Some d \<and>
        (\<forall>q. get_policy two_holders_cms (policy_id d) = Some q \<longrightarrow>
           policyholder_id q \<noteq> (py ''PH001'')) \<longrightarrow> get_claim s' k = Some d"
    by blast
  from holders others(1) have 1: "get_policyholder s' (py ''PH002'') = Some PH002"
    by simp
  from pols others(2)
  have 2: "get_policy s' (py ''POL002'') =
      Some (POL001\<lparr>pol_id := py ''POL002'', policyholder_id := py ''PH002''\<rparr>)"
    by simp
  from clms others(2,3)
  have 3: "get_claim s' (py ''CL002'') = Some (CL001\<lparr>clm_id := py ''CL002'', policy_id := py ''POL002''\<rparr>)"
    by simp
  from s' gone 1 2 3 show ?thesis
    by simp
qed

subsection \<open>Referential integrity\<close>

lemma set_update_subset: "set (AList.update k v al) \<subseteq> insert (k, v) (set al)"
  by (induction al) auto

lemma keys_update_present: "has_key k al \<Longrightarrow> map fst (AList.update k v al) = map fst al"
  by (simp add: update_keys has_key_def)

lemma has_key_update: "has_key k' (AList.update k v al) \<longleftrightarrow> k' = k \<or> has_key k' al"
  by (auto simp: has_key_def dom_update)

lemma has_key_delete: "has_key k' (AList.delete k al) \<longleftrightarrow> k' \<noteq> k \<and> has_key k' al"
  by (auto simp: has_key_def keys_delete)

lemma set_delete_subset: "x \<in> set (AList.delete k al) \<Longrightarrow> x \<in> set al"
  by (simp add: AList.delete_eq)

lemma has_key_stored: "map_of al k = Some v \<Longrightarrow> has_key k al"
  by (simp add: has_key_iff)

lemma ref_integrity_iff:
  "ref_integrity s \<longleftrightarrow>
     (\<forall>k p. (k, p) \<in> set (policies s) \<longrightarrow> has_key (policyholder_id p) (policyholders s)) \<and>
     (\<forall>k c. (k, c) \<in> set (claims s) \<longrightarrow> has_key (policy_id c) (policies s))"
  by (force simp: ref_integrity_def)

lemma validate_policy_holder:
  "validate_policy s p = None \<Longrightarrow> has_key (policyholder_id p) (policyholders s)"
  by (auto simp: validate_policy_def has_key_iff split: option.splits)

lemma validate_claim_policy:
  "validate_claim s c = None \<Longrightarrow> has_key (policy_id c) (policies s)"
  by (auto simp: validate_claim_def has_key_iff split: option.splits)

lemma policyholder_id_assign [simp]:
  "policyholder_id (assign_policy p ty sd ed cov prem) = policyholder_id p"
  by (simp add: assign_policy_def Let_def split: option.splits)

lemma policy_id_assign [simp]: "policy_id (assign_claim c ds am st) = policy_id c"
  by (simp add: assign_claim_def Let_def split: option.splits)

lemma update_policyholder_shape:
  "\<exists>ph'. snd (update_policyholder n1 n2 s k nm cn em dob) =
     (if has_key k (policyholders s) then set_policyholder s k ph' else s)"
  by (auto simp: update_policyholder_def update_contact_number_def update_email_def
      update_date_of_birth_def has_key_iff split: option.splits)

subsection \<open>Each operation keeps the keys distinct\<close>

lemma wf_set_policyholder: "wf_cms s \<Longrightarrow> wf_cms (set_policyholder s k ph)"
  by (simp add: wf_cms_def set_policyholder_def distinct_update)

lemma wf_step:
  assumes "wf_cms s"
  shows "wf_cms (snd (step s x))"
proof (cases x)
  case (CreatePolicyholder n1 n2 ph)
  with assms show ?thesis
    by (auto simp: create_policyholder_def wf_cms_def distinct_update split: option.splits)
next
  case (UpdatePolicyholder n1 n2 k nm cn em dob)
  from update_policyholder_shape [of n1 n2 s k nm cn em dob] assms UpdatePolicyholder
  show ?thesis
    by (auto simp: wf_set_policyholder split: if_splits)
next
  case (DeletePolicyholder k)
  show ?thesis
  proof (cases "has_key k (policyholders s)")
    case True
    from delete_policyholder_removes [OF assms True] assms DeletePolicyholder show ?thesis
      by (simp add: wf_cms_def distinct_delete distinct_map_filter)
  next
    case False
    with assms DeletePolicyholder show ?thesis
      by (simp add: delete_policyholder_def)
  qed
next
  case (CreatePolicy p)
  with assms show ?thesis
    by (auto simp: create_policy_def wf_cms_def distinct_update split: option.splits)
next
  case (UpdatePolicy k ty sd ed cov prem)
  with assms show ?thesis
    by (auto simp: update_policy_def Let_def wf_cms_def distinct_update split: option.splits)
next
  case (DeletePolicy k)
  show ?thesis
  proof (cases "has_key k (policies s)")
    case True
    from assms have "distinct (map fst (claims s))"
      by (simp add: wf_cms_def)
    from delete_policy_removes [OF this True] assms DeletePolicy show ?thesis
      by (simp add: wf_cms_def distinct_delete distinct_map_filter)
  next
    case False
    with assms DeletePolicy show ?thesis
      by (simp add: delete_policy_def)
  qed
next
  case (CreateClaim c)
  with assms show ?thesis
    by (auto simp: create_claim_def wf_cms_def distinct_update split: option.splits)
next
  case (UpdateClaim k ds am st)
  with assms show ?thesis
    by (auto simp: update_claim_def Let_def wf_cms_def distinct_update split: option.splits)
next
  case (DeleteClaim k)
  with assms show ?thesis
    by (auto simp: delete_claim_def wf_cms_def distinct_delete)
qed

subsection \<open>Each operation keeps the references\<close>

lemma ref_create_policyholder:
  assumes "ref_integrity s"
  shows "ref_integrity (snd (create_policyholder n1 n2 s ph))"
  using assms
  by (auto simp: create_policyholder_def ref_integrity_iff has_key_update split: option.splits)

lemma ref_set_policyholder:
  assumes "ref_integrity s"
  shows "ref_integrity (set_policyholder s k ph)"
  using assms by (auto simp: set_policyholder_def ref_integrity_iff has_key_update)

lemma ref_update_policyholder:
  assumes "ref_integrity s"
  shows "ref_integrity (snd (update_policyholder n1 n2 s k nm cn em dob))"
  using update_policyholder_shape [of n1 n2 s k nm cn em dob] assms
  by (auto simp: ref_set_policyholder split: if_splits)

lemma ref_delete_policyholder:
  assumes "wf_cms s" and "ref_integrity s"
  shows "ref_integrity (snd (delete_policyholder s k))"
proof (cases "has_key k (policyholders s)")
  case False
  with assms show ?thesis by (simp add: delete_policyholder_def)
next
  case True
  let ?s' = "\<lparr>policyholders = AList.delete k (policyholders s),
            policies = filter (\<lambda>(pid, p). policyholder_id p \<noteq> k) (policies s),
            claims = filter (\<lambda>(cid, c). policy_id c \<notin> set (policies_of_holder s k)) (claims s)\<rparr>"
  from assms(2) have pol: "\<And>i p. (i, p) \<in> set (policies s) \<Longrightarrow>
      has_key (policyholder_id p) (policyholders s)"
    and clm: "\<And>i c. (i, c) \<in> set (claims s) \<Longrightarrow> has_key (policy_id c) (policies s)"
    by (auto simp: ref_integrity_iff)
  have "has_key (policyholder_id p) (policyholders ?s')" if "(i, p) \<in> set (policies ?s')" for i p
    using that pol [of i p] by (auto simp: has_key_delete)
  moreover have "has_key (policy_id c) (policies ?s')" if "(i, c) \<in> set (claims ?s')" for i c
  proof -
    from that have in_s: "(i, c) \<in> set (claims s)"
      and out: "policy_id c \<notin> set (policies_of_holder s k)"
      by auto
    from clm [OF in_s] obtain q where q: "(policy_id c, q) \<in> set (policies s)"
      by (auto simp: has_key_def)
    with out have "policyholder_id q \<noteq> k"
      by (force simp: policies_of_holder_def)
    with q have "(policy_id c, q) \<in> set (policies ?s')"
      by simp
    then show ?thesis
      by (force simp: has_key_def)
  qed
  ultimately have "ref_integrity ?s'"
    unfolding ref_integrity_iff by blast
  with delete_policyholder_removes [OF assms(1) True] show ?thesis
    by simp
qed

lemma ref_create_policy:
  assumes "ref_integrity s"
  shows "ref_integrity (snd (create_policy s p))"
proof (cases "validate_policy s p = None \<and> \<not> has_key (pol_id p) (policies s)")
  case False
  with assms show ?thesis
    by (auto simp: create_policy_def split: option.splits)
next
  case True
  then have holder: "has_key (policyholder_id p) (policyholders s)"
    by (simp add: validate_policy_holder)
  from True have res: "snd (create_policy s p) =
      s\<lparr>policies := AList.update (pol_id p) p (policies s)\<rparr>"
    by (simp add: create_policy_def)
  show ?thesis
    unfolding res ref_integrity_iff using assms holder
      set_update_subset [of "pol_id p" p "policies s"]
    by (auto simp: ref_integrity_iff has_key_update)
qed

lemma ref_update_policy:
  assumes "ref_integrity s"
  shows "ref_integrity (snd (update_policy s k ty sd ed cov prem))"
proof (cases "map_of (policies s) k")
  case None
  with assms show ?thesis by (simp add: update_policy_def)
next
  case (Some p)
  let ?p' = "assign_policy p ty sd ed cov prem"
  from Some have "(k, p) \<in> set (policies s)"
    by (rule map_of_SomeD)
  with assms have holder: "has_key (policyholder_id ?p') (policyholders s)"
    by (auto simp: ref_integrity_iff)
  from Some have res: "snd (update_policy s k ty sd ed cov prem) =
      s\<lparr>policies := AList.update k ?p' (policies s)\<rparr>"
    by (simp add: update_policy_def Let_def)
  show ?thesis
    unfolding res ref_integrity_iff using assms holder
      set_update_subset [of k ?p' "policies s"]
    by (auto simp: ref_integrity_iff has_key_update)
qed

lemma ref_delete_policy:
  assumes "wf_cms s" and "ref_integrity s"
  shows "ref_integrity (snd (delete_policy s k))"
proof (cases "has_key k (policies s)")
  case False
  with assms show ?thesis by (simp add: delete_policy_def)
next
  case True
  from assms(1) have "distinct (map fst (claims s))"
    by (simp add: wf_cms_def)
  from delete_policy_removes [OF this True] assms(2) show ?thesis
    by (auto simp: ref_integrity_iff has_key_delete dest: set_delete_subset)
qed

lemma ref_create_claim:
  assumes "ref_integrity s"
  shows "ref_integrity (snd (create_claim s c))"
proof (cases "validate_claim s c = None \<and> \<not> has_key (clm_id c) (claims s)")
  case False
  with assms show ?thesis
    by (auto simp: create_claim_def split: option.splits)
next
  case True
  then have pol: "has_key (policy_id c) (policies s)"
    by (simp add: validate_claim_policy)
  from True have res: "snd (create_claim s c) =
      s\<lparr>claims := AList.update (clm_id c) c (claims s)\<rparr>"
    by (simp add: create_claim_def)
  show ?thesis
    unfolding res ref_integrity_iff using assms pol
      set_update_subset [of "clm_id c" c "claims s"]
    by (auto simp: ref_integrity_iff)
qed

lemma ref_update_claim:
  assumes "ref_integrity s"
  shows "ref_integrity (snd (update_claim s k ds am st))"
proof (cases "map_of (claims s) k")
  case None
  with assms show ?thesis by (simp add: update_claim_def)
next
  case (Some c)
  let ?c' = "assign_claim c ds am st"
  from Some have "(k, c) \<in> set (claims s)"
    by (rule map_of_SomeD)
  with assms have pol: "has_key (policy_id ?c') (policies s)"
    by (auto simp: ref_integrity_iff)
  from Some have res: "snd (update_claim s k ds am st) =
      s\<lparr>claims := AList.update k ?c' (claims s)\<rparr>"
    by (simp add: update_claim_def Let_def)
  show ?thesis
    unfolding res ref_integrity_iff using assms pol set_update_subset [of k ?c' "claims s"]
    by (auto simp: ref_integrity_iff)
qed

lemma ref_delete_claim:
  assumes "ref_integrity s"
  shows "ref_integrity (snd (delete_claim s k))"
  using assms by (auto simp: delete_claim_def ref_integrity_iff dest: set_delete_subset)

lemma ref_step:
  assumes "wf_cms s" and "ref_integrity s"
  shows "ref_integrity (snd (step s x))"
  using assms
  by (cases x)
    (simp_all add: ref_create_policyholder ref_update_policyholder ref_delete_policyholder
      ref_create_policy ref_update_policy ref_delete_policy ref_create_claim ref_update_claim
      ref_delete_claim)

lemma run_invariant:
  assumes "wf_cms s" and "ref_integrity s"
  shows "wf_cms (run s xs) \<and> ref_integrity (run s xs)"
  using assms
proof (induction xs arbitrary: s)
  case Nil
  then show ?case by simp
next
  case (Cons x xs)
  from Cons.prems have "wf_cms (snd (step s x))" and "ref_integrity (snd (step s x))"
    by (simp_all add: wf_step ref_step)
  from Cons.IH [OF this] show ?case by simp
qed

text \<open>
  C9. In the store reached from the empty store by any sequence of operations, whether
  they return normally or raise, the policyholder id of every stored policy is a key of
  the policyholders mapping and the policy id of every stored claim is a key of the
  policies mapping.
\<close>

theorem referential_integrity_reachable: "ref_integrity (run empty_cms ops)"
proof -
  have "wf_cms empty_cms" and "ref_integrity empty_cms"
    by (simp_all add: wf_cms_def ref_integrity_def empty_cms_def)
  from run_invariant [OF this] show ?thesis by simp
qed

theorem referential_integrity_reachable_witness:
  "run empty_cms sample_ops = sample_cms \<and> ref_integrity (run empty_cms sample_ops) \<and>
   ref_integrity (run empty_cms (sample_ops @
     [UpdatePolicy (py ''POL001'') None None None (Some (- 5)) None, DeletePolicy (py ''POL001'')]))"
  using sample_reachable referential_integrity_reachable [of sample_ops]
    referential_integrity_reachable [of "sample_ops @
     [UpdatePolicy (py ''POL001'') None None None (Some (- 5)) None, DeletePolicy (py ''POL001'')]"]
  by simp

subsection \<open>What a failed operation leaves behind\<close>

text \<open>
  A create or delete operation that raises has assigned nothing: creations validate before
  they insert, and a deletion raises only for an id that is not stored. An update operation
  that raises has added and removed no record and has left every record other than the
  one it addresses as it was.
\<close>

lemma frame_update_policyholder:
  "failure_frame (UpdatePolicyholder n1 n2 k nm cn em dob) s
     (snd (update_policyholder n1 n2 s k nm cn em dob))"
  using update_policyholder_shape [of n1 n2 s k nm cn em dob]
  by (auto simp: set_policyholder_def keys_update_present get_policyholder_def update_conv'
      split: if_splits)

lemma frame_update_policy:
  "failure_frame (UpdatePolicy k ty sd ed cov prem) s (snd (update_policy s k ty sd ed cov prem))"
  by (auto simp: update_policy_def Let_def keys_update_present has_key_stored get_policy_def
      update_conv' split: option.splits)

lemma frame_update_claim:
  "failure_frame (UpdateClaim k ds am st) s (snd (update_claim s k ds am st))"
  by (auto simp: update_claim_def Let_def keys_update_present has_key_stored get_claim_def
      update_conv' split: option.splits)

lemma failed_step_frame:
  assumes "wf_cms s" and "step s x = (Some e, s')"
  shows "failure_frame x s s'"
proof (cases x)
  case (CreatePolicyholder n1 n2 ph)
  with assms(2) show ?thesis
    by (auto simp: create_policyholder_def split: option.splits if_splits)
next
  case (UpdatePolicyholder n1 n2 k nm cn em dob)
  with assms(2) frame_update_policyholder [of n1 n2 k nm cn em dob s] show ?thesis
    by simp
next
  case (DeletePolicyholder k)
  show ?thesis
  proof (cases "has_key k (policyholders s)")
    case True
    from delete_policyholder_removes [OF assms(1) True] assms(2) DeletePolicyholder
    show ?thesis by simp
  next
    case False
    with assms(2) DeletePolicyholder show ?thesis
      by (simp add: delete_policyholder_def)
  qed
next
  case (CreatePolicy p)
  with assms(2) show ?thesis
    by (auto simp: create_policy_def split: option.splits if_splits)
next
  case (UpdatePolicy k ty sd ed cov prem)
  with assms(2) frame_update_policy [of k ty sd ed cov prem s] show ?thesis
    by simp
next
  case (DeletePolicy k)
  show ?thesis
  proof (cases "has_key k (policies s)")
    case True
    from assms(1) have "distinct (map fst (claims s))"
      by (simp add: wf_cms_def)
    from delete_policy_removes [OF this True] assms(2) DeletePolicy
    show ?thesis by simp
  next
    case False
    with assms(2) DeletePolicy show ?thesis
      by (simp add: delete_policy_def)
  qed
next
  case (CreateClaim c)
  with assms(2) show ?thesis
    by (auto simp: create_claim_def split: option.splits if_splits)
next
  case (UpdateClaim k ds am st)
  with assms(2) frame_update_claim [of k ds am st s] show ?thesis
    by simp
next
  case (DeleteClaim k)
  with assms(2) show ?thesis
    by (auto simp: delete_claim_def split: if_splits)
qed

text \<open>
  C1 does not hold of the code. \<open>update_policy\<close> and \<open>update_claim\<close> assign the provided
  fields to the stored object and validate it afterwards. On the sample store,
  \<open>update_policy\<close> with a coverage amount of \<open>-5\<close> raises and leaves \<open>-5\<close> in the stored
  policy, and \<open>update_claim\<close> with an amount above the coverage raises and leaves that amount
  in the stored claim: the call has failed and the stored record is not as it was.
\<close>

theorem failed_update_leaves_changes:
  "update_policy sample_cms (py ''POL001'') None None None (Some (- 5)) None =
     (Some (ValidationError CoverageNotPositive),
      sample_cms\<lparr>policies := [(py ''POL001'', POL001\<lparr>coverage_amount := - 5\<rparr>)]\<rparr>) \<and>
   get_policy (snd (update_policy sample_cms (py ''POL001'') None None None (Some (- 5)) None))
     (py ''POL001'') \<noteq> get_policy sample_cms (py ''POL001'') \<and>
   update_claim sample_cms (py ''CL001'') None (Some 60000) None =
     (Some (ValidationError (AmountOutOfRange 50000)),
      sample_cms\<lparr>claims := [(py ''CL001'', CL001\<lparr>amount := 60000\<rparr>)]\<rparr>) \<and>
   get_claim (snd (update_claim sample_cms (py ''CL001'') None (Some 60000) None)) (py ''CL001'')
     \<noteq> get_claim sample_cms (py ''CL001'')"
  by (simp add: update_policy_def assign_policy_def validate_policy_def update_claim_def
      assign_claim_def validate_claim_def get_policy_def get_claim_def sample_cms_def
      PH001_def POL001_def CL001_def at_day_def days_def one_day_def)

subsection \<open>The phone pattern\<close>

text \<open>
  The matcher decides membership in the language of the pattern, and the language of the
  phone pattern is the set of strings of the phone shape. With \<open>$\<close> allowing one final
  line feed, this characterises the validator on every string.
\<close>

lemma conc_iff: "w \<in> conc A B \<longleftrightarrow> (\<exists>u v. w = u @ v \<and> u \<in> A \<and> v \<in> B)"
  by (auto simp: conc_def)

lemma star_cons_aux:
  "x \<in> star A \<Longrightarrow> x = c # w \<Longrightarrow> \<exists>u v. w = u @ v \<and> c # u \<in> A \<and> v \<in> star A"
proof (induction arbitrary: c w rule: star.induct)
  case star_nil
  then show ?case by simp
next
  case (star_app u v)
  show ?case
  proof (cases u)
    case Nil
    with star_app.prems star_app.IH [of c w] show ?thesis by simp
  next
    case (Cons a u')
    with star_app.prems star_app.hyps have "w = u' @ v" and "c # u' \<in> A" and "v \<in> star A"
      by auto
    then show ?thesis by blast
  qed
qed

lemma star_cons_iff:
  "c # w \<in> star A \<longleftrightarrow> (\<exists>u v. w = u @ v \<and> c # u \<in> A \<and> v \<in> star A)"
proof
  assume "c # w \<in> star A"
  then show "\<exists>u v. w = u @ v \<and> c # u \<in> A \<and> v \<in> star A"
    by (rule star_cons_aux) simp
next
  assume "\<exists>u v. w = u @ v \<and> c # u \<in> A \<and> v \<in> star A"
  then obtain u v where "w = u @ v" and "c # u \<in> A" and "v \<in> star A"
    by blast
  then show "c # w \<in> star A"
    using star_app [of "c # u" A v] by simp
qed

lemma nullable_iff: "nullable r \<longleftrightarrow> [] \<in> lang r"
  by (induction r) (auto simp: conc_iff intro: star_nil)

lemma lang_deriv: "w \<in> lang (deriv c r) \<longleftrightarrow> c # w \<in> lang r"
proof (induction r arbitrary: w)
  case Nothing
  then show ?case by simp
next
  case Empty
  then show ?case by simp
next
  case (Class k)
  then show ?case by auto
next
  case (Alt r1 r2)
  then show ?case by simp
next
  case (Cat r1 r2)
  have "c # w \<in> conc (lang r1) (lang r2) \<longleftrightarrow>
      ([] \<in> lang r1 \<and> c # w \<in> lang r2) \<or>
      (\<exists>u v. w = u @ v \<and> c # u \<in> lang r1 \<and> v \<in> lang r2)"
    by (auto simp: conc_iff Cons_eq_append_conv)
  with Cat show ?case
    by (auto simp: nullable_iff conc_iff)
next
  case (Star r)
  then show ?case
    by (simp add: star_cons_iff conc_iff)
qed

lemma accepts_iff: "accepts r w \<longleftrightarrow> w \<in> lang r"
  by (induction w arbitrary: r) (simp_all add: nullable_iff lang_deriv)

lemma lang_opt: "lang (opt r) = insert [] (lang r)"
  by (auto simp: opt_def)

lemma conc_class_iff:
  "w \<in> conc {[c] | c. in_class k c} B \<longleftrightarrow> (\<exists>a v. w = a # v \<and> in_class k a \<and> v \<in> B)"
proof
  assume "w \<in> conc {[c] | c. in_class k c} B"
  then obtain u v where "w = u @ v" and "u \<in> {[c] | c. in_class k c}" and "v \<in> B"
    by (auto simp: conc_iff)
  then show "\<exists>a v. w = a # v \<and> in_class k a \<and> v \<in> B"
    by auto
next
  assume "\<exists>a v. w = a # v \<and> in_class k a \<and> v \<in> B"
  then obtain a v where "w = [a] @ v" and "[a] \<in> {[c] | c. in_class k c}" and "v \<in> B"
    by auto
  then show "w \<in> conc {[c] | c. in_class k c} B"
    unfolding conc_iff by blast
qed

lemma lang_times_class:
  "lang (times n (Class k)) = {w. length w = n \<and> (\<forall>c \<in> set w. in_class k c)}"
proof (induction n)
  case 0
  then show ?case by auto
next
  case (Suc n)
  have "w \<in> lang (times (Suc n) (Class k)) \<longleftrightarrow>
      length w = Suc n \<and> (\<forall>c \<in> set w. in_class k c)" for w
    using Suc by (cases w) (auto simp: conc_class_iff)
  then show ?case by blast
qed

lemma lang_at_most_class:
  "lang (at_most n (Class k)) = {w. length w \<le> n \<and> (\<forall>c \<in> set w. in_class k c)}"
proof (induction n)
  case 0
  then show ?case by auto
next
  case (Suc n)
  have "w \<in> lang (at_most (Suc n) (Class k)) \<longleftrightarrow>
      length w \<le> Suc n \<and> (\<forall>c \<in> set w. in_class k c)" for w
    using Suc by (cases w) (auto simp: lang_opt conc_class_iff)
  then show ?case by blast
qed

lemma lang_between_class:
  assumes "m \<le> n"
  shows "lang (between m n (Class k)) =
    {w. m \<le> length w \<and> length w \<le> n \<and> (\<forall>c \<in> set w. in_class k c)}"
proof (rule set_eqI)
  fix w
  show "w \<in> lang (between m n (Class k)) \<longleftrightarrow>
      w \<in> {w. m \<le> length w \<and> length w \<le> n \<and> (\<forall>c \<in> set w. in_class k c)}"
  proof
    assume "w \<in> lang (between m n (Class k))"
    then obtain u v where "w = u @ v" and "length u = m" and "length v \<le> n - m"
      and "\<forall>c \<in> set u. in_class k c" and "\<forall>c \<in> set v. in_class k c"
      by (auto simp: between_def conc_iff lang_times_class lang_at_most_class)
    with assms show "w \<in> {w. m \<le> length w \<and> length w \<le> n \<and> (\<forall>c \<in> set w. in_class k c)}"
      by auto
  next
    assume w: "w \<in> {w. m \<le> length w \<and> length w \<le> n \<and> (\<forall>c \<in> set w. in_class k c)}"
    have "w = take m w @ drop m w" by simp
    moreover from w have "length (take m w) = m" and "length (drop m w) \<le> n - m"
      by auto
    moreover from w have "\<forall>c \<in> set (take m w). in_class k c"
      and "\<forall>c \<in> set (drop m w). in_class k c"
      by (auto dest: in_set_takeD in_set_dropD)
    ultimately show "w \<in> lang (between m n (Class k))"
      unfolding between_def lang.simps conc_iff lang_times_class lang_at_most_class
      by blast
  qed
qed

lemma lang_opt_lit: "lang (opt (Class (Lit a))) = {[], [a]}"
  by (auto simp: opt_def)

lemma conc_two_optional:
  "s \<in> conc {[], a} (conc {[], b} D) \<longleftrightarrow>
     (\<exists>p q ds. s = p @ q @ ds \<and> (p = [] \<or> p = a) \<and> (q = [] \<or> q = b) \<and> ds \<in> D)"
proof
  assume "s \<in> conc {[], a} (conc {[], b} D)"
  then obtain p q ds where "s = p @ q @ ds" and "p \<in> {[], a}" and "q \<in> {[], b}" and "ds \<in> D"
    unfolding conc_iff by blast
  then show "\<exists>p q ds. s = p @ q @ ds \<and> (p = [] \<or> p = a) \<and> (q = [] \<or> q = b) \<and> ds \<in> D"
    by blast
next
  assume "\<exists>p q ds. s = p @ q @ ds \<and> (p = [] \<or> p = a) \<and> (q = [] \<or> q = b) \<and> ds \<in> D"
  then obtain p q ds where "s = p @ q @ ds" and "p \<in> {[], a}" and "q \<in> {[], b}" and "ds \<in> D"
    by blast
  then show "s \<in> conc {[], a} (conc {[], b} D)"
    unfolding conc_iff by blast
qed

lemma digits_iff: "digits ds \<longleftrightarrow> (\<forall>c \<in> set ds. in_class Digit c)"
  unfolding digits_def in_class.simps ..

lemma lang_phone_pattern: "s \<in> lang phone_pattern \<longleftrightarrow> phone_shape s"
proof -
  let ?D = "{w. 9 \<le> length w \<and> length w \<le> 15 \<and> digits w}"
  have "lang (between 9 15 (Class Digit)) = ?D"
    unfolding digits_iff by (rule lang_between_class) simp
  then have "lang phone_pattern = conc {[], [plus_sign]} (conc {[], [digit_one]} ?D)"
    unfolding phone_pattern_def lang.simps(5) lang_opt_lit by simp
  then have "s \<in> lang phone_pattern \<longleftrightarrow>
      (\<exists>p q ds. s = p @ q @ ds \<and> (p = [] \<or> p = [plus_sign]) \<and> (q = [] \<or> q = [digit_one]) \<and> ds \<in> ?D)"
    by (simp only: conc_two_optional)
  then show ?thesis
    unfolding phone_shape_def by simp
qed

lemma validate_phone_number_iff:
  "validate_phone_number s = None \<longleftrightarrow>
     phone_shape s \<or> (ends_with_line_feed s \<and> phone_shape (butlast s))"
  by (simp add: validate_phone_number_def re_match_dollar_def accepts_iff lang_phone_pattern
      ends_with_line_feed_def)

lemma claimed_phone_shape_iff:
  "claimed_phone_shape s \<longleftrightarrow>
     (9 \<le> length s \<and> length s \<le> 15 \<and> digits s) \<or>
     (\<exists>ds. s = [plus_sign, digit_one] @ ds \<and> 9 \<le> length ds \<and> length ds \<le> 15 \<and> digits ds)"
proof
  assume "claimed_phone_shape s"
  then obtain p ds where "s = p @ ds" and "p = [] \<or> p = [plus_sign, digit_one]"
    and "9 \<le> length ds" and "length ds \<le> 15" and "digits ds"
    unfolding claimed_phone_shape_def by blast
  then show "(9 \<le> length s \<and> length s \<le> 15 \<and> digits s) \<or>
     (\<exists>ds. s = [plus_sign, digit_one] @ ds \<and> 9 \<le> length ds \<and> length ds \<le> 15 \<and> digits ds)"
    by auto
next
  assume "(9 \<le> length s \<and> length s \<le> 15 \<and> digits s) \<or>
     (\<exists>ds. s = [plus_sign, digit_one] @ ds \<and> 9 \<le> length ds \<and> length ds \<le> 15 \<and> digits ds)"
  then have "\<exists>p ds. s = p @ ds \<and> (p = [] \<or> p = [plus_sign, digit_one]) \<and>
        9 \<le> length ds \<and> length ds \<le> 15 \<and> digits ds"
    by (metis append_Nil)
  then show "claimed_phone_shape s"
    unfolding claimed_phone_shape_def .
qed

text \<open>
  C8, as stated, fails. \<open>+234567890\<close>, a \<open>+\<close> that is not followed by \<open>1\<close>, and a string of
  16 digits that starts with \<open>1\<close> are both accepted, and neither is an optional \<open>+1\<close>
  followed by 9 to 15 digits.
\<close>

theorem phone_validator_counterexample:
  "validate_phone_number (py ''+234567890'') = None \<and> \<not> claimed_phone_shape (py ''+234567890'') \<and>
   validate_phone_number (py ''1234567890123456'') = None \<and>
   \<not> claimed_phone_shape (py ''1234567890123456'')"
proof -
  have 1: "validate_phone_number (py ''+234567890'') = None"
    by (simp add: phone_eval)
  have 2: "validate_phone_number (py ''1234567890123456'') = None"
    by (simp add: phone_eval)
  have 3: "\<not> claimed_phone_shape (py ''+234567890'')"
    unfolding claimed_phone_shape_iff
    by (simp add: digits_def py_def plus_sign_def digit_one_def unicode_decimal_ascii)
  have 4: "\<not> claimed_phone_shape (py ''1234567890123456'')"
    unfolding claimed_phone_shape_iff
    by (simp add: digits_def py_def plus_sign_def digit_one_def unicode_decimal_ascii)
  from 1 2 3 4 show ?thesis by simp
qed

text \<open>
  C8, amended. A string that does not end in a line feed is accepted by the phone
  validator if and only if it consists of an optional \<open>+\<close>, then an optional \<open>1\<close>, then 9
  to 15 digits, where a digit is any Unicode decimal digit (the characters \<open>\d\<close> matches,
  \<open>0\<close> to \<open>9\<close> among them); every other such string is rejected with the invalid-format
  error.
\<close>

theorem phone_validator_shape:
  "\<not> ends_with_line_feed s \<Longrightarrow>
     validate_phone_number s =
       (if phone_shape s then None else Some (ValidationError InvalidPhone))"
  using validate_phone_number_iff [of s]
  by (auto simp: validate_phone_number_def split: if_splits)

theorem phone_validator_shape_witness:
  "validate_phone_number (py ''+1234567890'') = None \<and> phone_shape (py ''+1234567890'') \<and>
   validate_phone_number (py ''+234567890'') = None \<and> phone_shape (py ''+234567890'') \<and>
   validate_phone_number (py ''12345678'') = Some (ValidationError InvalidPhone) \<and>
   \<not> phone_shape (py ''12345678'') \<and>
   validate_phone_number [1632, 1633, 1634, 1635, 1636, 1637, 1638, 1639, 1640, 1641] = None \<and>
   phone_shape [1632, 1633, 1634, 1635, 1636, 1637, 1638, 1639, 1640, 1641]"
proof -
  let ?arabic_indic = "[1632, 1633, 1634, 1635, 1636, 1637, 1638, 1639, 1640, 1641] :: str"
  have v: "validate_phone_number (py ''+1234567890'') = None"
    "validate_phone_number (py ''+234567890'') = None"
    "validate_phone_number (py ''12345678'') = Some (ValidationError InvalidPhone)"
    "validate_phone_number ?arabic_indic = None"
    by (simp_all add: phone_eval)
  have e: "\<not> ends_with_line_feed (py ''+1234567890'')"
    "\<not> ends_with_line_feed (py ''+234567890'')"
    "\<not> ends_with_line_feed (py ''12345678'')"
    "\<not> ends_with_line_feed ?arabic_indic"
    by (simp_all add: ends_with_line_feed_def line_feed_def py_def)
  from v e phone_validator_shape [of "py ''+1234567890''"]
    phone_validator_shape [of "py ''+234567890''"]
    phone_validator_shape [of "py ''12345678''"]
    phone_validator_shape [of ?arabic_indic]
  show ?thesis by (simp split: if_splits)
qed

subsection \<open>The email pattern\<close>

text \<open>
  \<open>re.match\<close> does not anchor the end of the pattern: a subject with an accepted prefix
  is accepted.
\<close>

lemma re_match_append: "re_match r s \<Longrightarrow> re_match r (s @ t)"
proof (induction s arbitrary: r)
  case Nil
  then show ?case by (cases t) simp_all
next
  case (Cons c cs)
  then show ?case by auto
qed

lemma validate_email_longer: "validate_email s = None \<Longrightarrow> validate_email (s @ t) = None"
  using re_match_append [of email_pattern s t]
  by (simp add: validate_email_def split: if_splits)

text \<open>
  The language of the email pattern is the set of strings of the shape local@domain.tld,
  and the validator accepts exactly the strings that start with one.
\<close>

lemma re_match_iff: "re_match r s \<longleftrightarrow> (\<exists>p t. s = p @ t \<and> p \<in> lang r)"
proof (induction s arbitrary: r)
  case Nil
  then show ?case by (simp add: nullable_iff)
next
  case (Cons c cs)
  have "(\<exists>p t. c # cs = p @ t \<and> p \<in> lang r) \<longleftrightarrow>
      [] \<in> lang r \<or> (\<exists>p' t. cs = p' @ t \<and> c # p' \<in> lang r)"
    by (auto simp: Cons_eq_append_conv)
  with Cons show ?case
    by (simp add: nullable_iff lang_deriv)
qed

lemma star_class_subset:
  "w \<in> star {[c] | c. in_class k c} \<Longrightarrow> \<forall>c \<in> set w. in_class k c"
  by (induction rule: star.induct) auto

lemma star_class_all:
  "\<forall>c \<in> set w. in_class k c \<Longrightarrow> w \<in> star {[c] | c. in_class k c}"
proof (induction w)
  case Nil
  show ?case by (rule star_nil)
next
  case (Cons a w)
  then have "[a] \<in> {[c] | c. in_class k c}" and "w \<in> star {[c] | c. in_class k c}"
    by auto
  from star_app [OF this] show ?case by simp
qed

lemma star_class_iff:
  "w \<in> star {[c] | c. in_class k c} \<longleftrightarrow> (\<forall>c \<in> set w. in_class k c)"
  using star_class_subset star_class_all by blast

lemma lang_plus1_class:
  "lang (plus1 (Class k)) = {w. w \<noteq> [] \<and> (\<forall>c \<in> set w. in_class k c)}"
proof -
  have "w \<in> lang (plus1 (Class k)) \<longleftrightarrow>
      (\<exists>a v. w = a # v \<and> in_class k a \<and> (\<forall>c \<in> set v. in_class k c))" for w
    by (simp add: plus1_def conc_class_iff star_class_iff)
  then have "w \<in> lang (plus1 (Class k)) \<longleftrightarrow> w \<noteq> [] \<and> (\<forall>c \<in> set w. in_class k c)" for w
    by (cases w) simp_all
  then show ?thesis by blast
qed

lemma lang_email_pattern: "s \<in> lang email_pattern \<longleftrightarrow> email_shape s"
proof -
  let ?P = "{w. w \<noteq> [] \<and> at_sign \<notin> set w}"
  have P: "lang (plus1 (Class (Except at_sign))) = ?P"
    unfolding lang_plus1_class by auto
  have L: "lang email_pattern = conc ?P (conc {[at_sign]} (conc ?P (conc {[full_stop]} ?P)))"
    unfolding email_pattern_def lang.simps(5) P by simp
  show ?thesis
  proof
    assume "s \<in> lang email_pattern"
    then obtain l r1 where 1: "s = l @ r1" "l \<in> ?P"
      and "r1 \<in> conc {[at_sign]} (conc ?P (conc {[full_stop]} ?P))"
      unfolding L conc_iff by blast
    then obtain r2 where 2: "r1 = [at_sign] @ r2" and "r2 \<in> conc ?P (conc {[full_stop]} ?P)"
      unfolding conc_iff by blast
    then obtain d r3 where 3: "r2 = d @ r3" "d \<in> ?P" and "r3 \<in> conc {[full_stop]} ?P"
      unfolding conc_iff by blast
    then obtain t where 4: "r3 = [full_stop] @ t" "t \<in> ?P"
      unfolding conc_iff by blast
    from 1 2 3 4 have "s = l @ [at_sign] @ d @ [full_stop] @ t \<and> l \<noteq> [] \<and> d \<noteq> [] \<and> t \<noteq> [] \<and>
        at_sign \<notin> set l \<and> at_sign \<notin> set d \<and> at_sign \<notin> set t"
      by simp
    then show "email_shape s"
      unfolding email_shape_def by blast
  next
    assume "email_shape s"
    then obtain l d t where s: "s = l @ [at_sign] @ d @ [full_stop] @ t"
      and "l \<in> ?P" and "d \<in> ?P" and "t \<in> ?P"
      unfolding email_shape_def by blast
    then have "[full_stop] @ t \<in> conc {[full_stop]} ?P"
      unfolding conc_iff by blast
    with \<open>d \<in> ?P\<close> have "d @ [full_stop] @ t \<in> conc ?P (conc {[full_stop]} ?P)"
      unfolding conc_iff by blast
    then have "[at_sign] @ d @ [full_stop] @ t \<in> conc {[at_sign]} (conc ?P (conc {[full_stop]} ?P))"
      unfolding conc_iff by blast
    with \<open>l \<in> ?P\<close> have "l @ [at_sign] @ d @ [full_stop] @ t \<in> lang email_pattern"
      unfolding L conc_iff by blast
    with s show "s \<in> lang email_pattern"
      by simp
  qed
qed

lemma validate_email_iff:
  "validate_email s = None \<longleftrightarrow> (\<exists>p rest. s = p @ rest \<and> email_shape p)"
  by (simp add: validate_email_def re_match_iff lang_email_pattern)

lemma email_shape_one_at:
  assumes "email_shape s"
  shows "count_list s at_sign = 1"
proof -
  from assms obtain l d t where "s = l @ [at_sign] @ d @ [full_stop] @ t"
    and "at_sign \<notin> set l" and "at_sign \<notin> set d" and "at_sign \<notin> set t"
    unfolding email_shape_def by blast
  moreover have "full_stop \<noteq> at_sign"
    by (simp add: full_stop_def at_sign_def)
  ultimately show ?thesis by simp
qed

text \<open>
  C7 does not hold of the code. \<open>a@b.c@d\<close> has a second \<open>@\<close> after an address, so it is not
  of the shape local@domain.tld, and \<open>_validate_email\<close> accepts it.
\<close>

theorem email_with_second_at_accepted:
  "validate_email (py ''a@b.c@d'') = None \<and> \<not> email_shape (py ''a@b.c@d'')"
proof -
  have "validate_email (py ''a@b.c@d'') = None"
    by (simp add: email_eval)
  moreover have "count_list (py ''a@b.c@d'') at_sign \<noteq> 1"
    by (simp add: py_def at_sign_def)
  then have "\<not> email_shape (py ''a@b.c@d'')"
    using email_shape_one_at by blast
  ultimately show ?thesis ..
qed

end
